theory Spec2Isabelle
  imports Complex_Main "HOL-Library.Sublist"
begin

section \<open>Python strings\<close>

text \<open>
  A Python \<open>str\<close> is a sequence of Unicode code points, and \<open>len\<close> counts code points.
  A code point is modelled as a natural number and a \<open>str\<close> as the list of its code
  points. \<open>py\<close> turns an ASCII literal into such a list.
\<close>

type_synonym str = "nat list"

definition py :: "string \<Rightarrow> str" where
  "py s = map of_char s"

definition NUL :: nat where
  "NUL = 0"

definition LF :: nat where
  "LF = 10"

definition SPACE :: nat where
  "SPACE = 32"

definition COLON :: nat where
  "COLON = 58"

definition APOSTROPHE :: nat where
  "APOSTROPHE = 39"

text \<open>\<open>cons_first c pieces\<close> puts \<open>c\<close> in front of the first piece of a split.\<close>

fun cons_first :: "nat \<Rightarrow> str list \<Rightarrow> str list" where
  "cons_first c [] = [[c]]"
| "cons_first c (r # rs) = (c # r) # rs"

text \<open>\<open>s.split(sep)\<close> for a separator of one character: never an empty list.\<close>

fun split_char :: "nat \<Rightarrow> str \<Rightarrow> str list" where
  "split_char sep [] = [[]]"
| "split_char sep (c # cs) =
     (if c = sep then [] # split_char sep cs else cons_first c (split_char sep cs))"

text \<open>\<open>s.rstrip(chars)\<close>: drop the longest suffix made of characters of \<open>chars\<close>.\<close>

definition rstrip :: "str \<Rightarrow> str \<Rightarrow> str" where
  "rstrip chars s = rev (dropWhile (\<lambda>c. c \<in> set chars) (rev s))"

text \<open>\<open>s.rsplit(sep, 1)[-1]\<close> for a separator of one character: what follows its last
  occurrence, the whole string when there is none.\<close>

definition rsplit1_last :: "nat \<Rightarrow> str \<Rightarrow> str" where
  "rsplit1_last sep s = rev (takeWhile (\<lambda>c. c \<noteq> sep) (rev s))"

text \<open>\<open>s.split(sep, 1)\<close>: \<open>None\<close> when \<open>sep\<close> does not occur (the list has one element),
  otherwise the text before and after the first occurrence.\<close>

fun split_once :: "str \<Rightarrow> str \<Rightarrow> (str \<times> str) option" where
  "split_once sep [] = (if sep = [] then Some ([], []) else None)"
| "split_once sep (c # cs) =
     (if prefix sep (c # cs) then Some ([], drop (length sep) (c # cs))
      else map_option (\<lambda>(a, b). (c # a, b)) (split_once sep cs))"

text \<open>\<open>sub in s\<close> for strings, and \<open>s.index(sub)\<close> (\<open>None\<close> stands for its ValueError).\<close>

fun str_index :: "str \<Rightarrow> str \<Rightarrow> nat option" where
  "str_index sub [] = (if sub = [] then Some 0 else None)"
| "str_index sub (c # cs) =
     (if prefix sub (c # cs) then Some 0 else map_option Suc (str_index sub cs))"

definition str_contains :: "str \<Rightarrow> str \<Rightarrow> bool" where
  "str_contains sub s = (str_index sub s \<noteq> None)"

section \<open>Exceptions\<close>

text \<open>
  Every raise of the source is a value. \<open>ValueError\<close> carries its message.
  \<open>UnicodeEncodeError i\<close> is raised by \<open>encode("utf-8")\<close> at the first surrogate, at
  index \<open>i\<close>. \<open>Raised msg\<close> is an exception coming out of a collaborator (git, the
  exclusion filter). \<open>PatchParseError sha exc\<close> is the exception built from the text
  \<open>f"Could not parse patch (sha: {sha}): {exc}"\<close>: it is determined by the commit's sha and
  the exception it wraps.
\<close>

datatype exn =
    ValueError str
  | UnicodeEncodeError nat
  | IndexError
  | AttributeError
  | Raised str
  | PatchParseError "str option" exn

section \<open>Patch header parser\<close>

datatype Filemode = MODIFY | DELETE | NEW | RENAME | FILE

definition status_of_prefix :: "str \<Rightarrow> str" where
  "status_of_prefix pfx = rstrip (py ''0123456789'') (rsplit1_last SPACE pfx)"

definition unknown_status_message :: "str \<Rightarrow> str \<Rightarrow> str" where
  "unknown_status_message line status =
     py ''Can'' @ [APOSTROPHE] @ py ''t parse header line '' @ line
       @ py '': unknown status '' @ status"

definition parse_patch_header_line :: "str \<Rightarrow> exn + (str \<times> Filemode)" where
  "parse_patch_header_line line =
     (case split_char NUL (rstrip [NUL] line) of
        pfx # name # rest \<Rightarrow>
          (let name = (case rest of [] \<Rightarrow> name | new_name # _ \<Rightarrow> new_name);
               status = status_of_prefix pfx
           in if of_char CHR ''M'' \<in> set status then Inr (name, MODIFY)
              else if of_char CHR ''C'' \<in> set status then Inr (name, NEW)
              else if of_char CHR ''A'' \<in> set status then Inr (name, NEW)
              else if of_char CHR ''T'' \<in> set status then Inr (name, NEW)
              else if of_char CHR ''R'' \<in> set status then Inr (name, RENAME)
              else if of_char CHR ''D'' \<in> set status then Inr (name, DELETE)
              else Inl (ValueError (unknown_status_message line status)))
      | _ \<Rightarrow>
          Inl (ValueError (py ''not enough values to unpack (expected at least 2, got 1)'')))"

section \<open>Files and their payload\<close>

record File =
  document :: str
  filename :: str
  filemode :: Filemode

definition File_init :: "str \<Rightarrow> str \<Rightarrow> File" where
  "File_init doc name = \<lparr>document = doc, filename = name, filemode = FILE\<rparr>"

definition CommitFile_init :: "str \<Rightarrow> str \<Rightarrow> Filemode \<Rightarrow> File" where
  "CommitFile_init doc name mode = (File_init doc name)\<lparr>filemode := mode\<rparr>"

text \<open>The dictionary built by \<open>scan_dict\<close>, with its three keys.\<close>

record Payload =
  payload_filename :: str
  payload_document :: str
  payload_filemode :: Filemode

text \<open>\<open>s[-255:]\<close>: the last 255 characters, the whole string when it is shorter.\<close>

definition last255 :: "str \<Rightarrow> str" where
  "last255 s = drop (length s - 255) s"

definition scan_dict :: "File \<Rightarrow> Payload" where
  "scan_dict f =
     \<lparr>payload_filename = (if length (filename f) \<le> 256 then filename f else last255 (filename f)),
      payload_document = document f,
      payload_filemode = filemode f\<rparr>"

section \<open>Collections of files\<close>

text \<open>
  A Python \<open>dict\<close> keeps its keys in the order of their first insertion; storing under a
  key that is present replaces the value and keeps the position. It is an association list
  without duplicate keys, and \<open>dict_set\<close> is \<open>d[k] = v\<close>.
\<close>

fun dict_set :: "'k \<Rightarrow> 'v \<Rightarrow> ('k \<times> 'v) list \<Rightarrow> ('k \<times> 'v) list" where
  "dict_set k v [] = [(k, v)]"
| "dict_set k v ((k', v') # d) =
     (if k' = k then (k, v) # d else (k', v') # dict_set k v d)"

type_synonym Files = "(str \<times> File) list"

text \<open>\<open>{entry.filename: entry for entry in files}\<close>\<close>

definition Files_init :: "File list \<Rightarrow> Files" where
  "Files_init entries = foldl (\<lambda>d entry. dict_set (filename entry) entry d) [] entries"

definition dict_values :: "('k \<times> 'v) list \<Rightarrow> 'v list" where
  "dict_values d = map snd d"

definition scannable_list :: "Files \<Rightarrow> Payload list" where
  "scannable_list fs = map scan_dict (dict_values fs)"

definition apply_filter :: "(File \<Rightarrow> bool) \<Rightarrow> Files \<Rightarrow> Files" where
  "apply_filter filter_func fs = Files_init (filter filter_func (dict_values fs))"

text \<open>
  \<open>File.relative_to\<close> builds a plain \<open>File\<close> (its filemode is FILE) named
  \<open>str(Path(self.filename).relative_to(root_path))\<close>. The path computation belongs to
  \<open>pathlib\<close>; it is the parameter \<open>rel\<close>, which raises when the file is not under the
  root.
\<close>

definition File_relative_to :: "(str \<Rightarrow> exn + str) \<Rightarrow> File \<Rightarrow> exn + File" where
  "File_relative_to rel f =
     (case rel (filename f) of Inl e \<Rightarrow> Inl e | Inr name \<Rightarrow> Inr (File_init (document f) name))"

text \<open>A list comprehension whose element expression can raise: the first raise wins.\<close>

fun map_raise :: "('a \<Rightarrow> exn + 'b) \<Rightarrow> 'a list \<Rightarrow> exn + 'b list" where
  "map_raise g [] = Inr []"
| "map_raise g (x # xs) =
     (case g x of
        Inl e \<Rightarrow> Inl e
      | Inr y \<Rightarrow> (case map_raise g xs of Inl e \<Rightarrow> Inl e | Inr ys \<Rightarrow> Inr (y # ys)))"

definition Files_relative_to :: "(str \<Rightarrow> exn + str) \<Rightarrow> Files \<Rightarrow> exn + Files" where
  "Files_relative_to rel fs =
     (case map_raise (File_relative_to rel) (dict_values fs) of
        Inl e \<Rightarrow> Inl e
      | Inr entries \<Rightarrow> Inr (Files_init entries))"

text \<open>Every key of a collection is the filename of its file.\<close>

definition keyed :: "Files \<Rightarrow> bool" where
  "keyed d = (\<forall>(k, f) \<in> set d. filename f = k)"

section \<open>Chunks\<close>

text \<open>
  \<open>for i in range(0, len(scannable_list), MULTI_DOCUMENT_LIMIT):
      chunks.append(scannable_list[i : i + MULTI_DOCUMENT_LIMIT])\<close>
  \<open>chunks_from limit i xs\<close> is the list appended from index \<open>i\<close> on. The limit is a
  constant of the client library and a parameter here; \<open>range\<close> raises when its step
  is 0.
\<close>

function chunks_from :: "nat \<Rightarrow> nat \<Rightarrow> 'a list \<Rightarrow> 'a list list" where
  "chunks_from limit i xs =
     (if limit = 0 \<or> length xs \<le> i then []
      else take limit (drop i xs) # chunks_from limit (i + limit) xs)"
  by pat_completeness auto
termination
  by (relation "measure (\<lambda>(limit, i, xs). length xs - i)") auto

definition make_chunks :: "nat \<Rightarrow> 'a list \<Rightarrow> exn + 'a list list" where
  "make_chunks limit xs =
     (if limit = 0 then Inl (ValueError (py ''range() arg 3 must not be zero''))
      else Inr (chunks_from limit 0 xs))"

declare chunks_from.simps [simp del]

section \<open>Scanning a collection\<close>

text \<open>
  The types of the client library, as far as \<open>Files.scan\<close> reads them. A scan result has
  policy breaks when its \<open>policy_break_count\<close> is positive. A response is a
  \<open>MultiScanResult\<close> or a \<open>Detail\<close>; either one is a success when its status code is 200.
\<close>

datatype PolicyBreak = PolicyBreak (break_type: str) (policy: str) (matches: "str list")

record ScanResult =
  policy_break_count :: nat
  policy_breaks :: "PolicyBreak list"

definition has_policy_breaks :: "ScanResult \<Rightarrow> bool" where
  "has_policy_breaks scanned = (0 < policy_break_count scanned)"

datatype Response =
    MultiScanResult (status_code: "nat option") (scan_results: "ScanResult list")
  | Detail (status_code: "nat option") (detail: str)

definition success :: "Response \<Rightarrow> bool" where
  "success r = (status_code r = Some 200)"

text \<open>
  What a future holds once it is done: the value returned by \<open>client.multi_content_scan\<close>,
  or the exception it raised (\<open>Excepted msg\<close>, with \<open>msg\<close> the text \<open>str(exception)\<close>).
\<close>

datatype Outcome = Returned Response | Excepted str

record Result =
  content :: str
  result_filemode :: Filemode
  result_filename :: str
  scan :: ScanResult

record Error =
  files :: "(str \<times> Filemode) list"
  description :: str

record Results =
  results :: "Result list"
  errors :: "Error list"

definition from_exception :: "str \<Rightarrow> Results" where
  "from_exception exc_text = \<lparr>results = [], errors = [\<lparr>files = [], description = exc_text\<rparr>]\<rparr>"

text \<open>
  Modelled from the spec: the class \<open>Cache\<close> (ggshield.core.cache) is not among the
  sources. The spec (4.4) gives it three operations: \<open>purge\<close> resets the state of the run,
  \<open>add_found_policy_break\<close> records that a finding was seen in a file, \<open>save\<close> persists
  what was recorded. None of them raises.
\<close>

record Cache =
  found :: "(PolicyBreak \<times> str) list"
  persisted :: "(PolicyBreak \<times> str) list"

definition purge :: "Cache \<Rightarrow> Cache" where
  "purge cache = cache\<lparr>found := []\<rparr>"

definition add_found_policy_break :: "PolicyBreak \<Rightarrow> str \<Rightarrow> Cache \<Rightarrow> Cache" where
  "add_found_policy_break policy_break name cache =
     cache\<lparr>found := found cache @ [(policy_break, name)]\<rparr>"

definition save :: "Cache \<Rightarrow> Cache" where
  "save cache = cache\<lparr>persisted := found cache\<rparr>"

text \<open>
  Modelled from the spec: \<open>handle_scan_chunk_error\<close> (module \<open>scannable_errors\<close>) is not among
  the sources. The spec (4.3, 7) says that a failed chunk is reported and that the scan
  never raises for it: the function returns normally (\<open>None\<close>: no exception).
\<close>

definition handle_scan_chunk_error :: "Response \<Rightarrow> Payload list \<Rightarrow> exn option" where
  "handle_scan_chunk_error scan_response chunk = None"

text \<open>
  The two filters of ggshield.core.filter change a scan result in place; they are not
  among the sources and depend on the ignore rules of the caller. They are the parameters
  \<open>remove_ignored\<close> (for \<open>remove_ignored_from_result(scanned, matches_ignore)\<close>) and
  \<open>remove_detectors\<close> (for \<open>remove_results_from_ignore_detectors(scanned,
  ignored_detectors)\<close>), each giving the scan result as it is after the call.
\<close>

text \<open>What the loop of \<open>Files.scan\<close> accumulates; \<open>acc_scanned\<close> lists the chunks handed
  to \<open>on_file_chunk_scanned\<close>, in the order of the calls.\<close>

record Acc =
  acc_results :: "Result list"
  acc_errors :: "Error list"
  acc_cache :: Cache
  acc_scanned :: "Payload list list"

text \<open>The body of \<open>for index, scanned in enumerate(scan.scan_results)\<close>; \<open>chunk[index]\<close>
  raises IndexError when the response has more results than the chunk has documents.\<close>

definition scan_document ::
  "(ScanResult \<Rightarrow> ScanResult) \<Rightarrow> (ScanResult \<Rightarrow> ScanResult) \<Rightarrow>
   Payload list \<Rightarrow> nat \<Rightarrow> ScanResult \<Rightarrow> Acc \<Rightarrow> exn + Acc" where
  "scan_document remove_ignored remove_detectors chunk index scanned0 acc =
     (let scanned = remove_detectors (remove_ignored scanned0) in
      if has_policy_breaks scanned then
        (if index < length chunk then
           Inr (acc\<lparr>acc_cache :=
                       fold (\<lambda>policy_break.
                               add_found_policy_break policy_break
                                 (payload_filename (chunk ! index)))
                         (policy_breaks scanned) (acc_cache acc),
                     acc_results := acc_results acc @
                       [\<lparr>content = payload_document (chunk ! index),
                         result_filemode = payload_filemode (chunk ! index),
                         result_filename = payload_filename (chunk ! index),
                         scan = scanned\<rparr>]\<rparr>)
         else Inl IndexError)
      else Inr acc)"

fun scan_documents ::
  "(ScanResult \<Rightarrow> ScanResult) \<Rightarrow> (ScanResult \<Rightarrow> ScanResult) \<Rightarrow>
   Payload list \<Rightarrow> nat \<Rightarrow> ScanResult list \<Rightarrow> Acc \<Rightarrow> exn + Acc" where
  "scan_documents remove_ignored remove_detectors chunk index [] acc = Inr acc"
| "scan_documents remove_ignored remove_detectors chunk index (scanned # rest) acc =
     (case scan_document remove_ignored remove_detectors chunk index scanned acc of
        Inl e \<Rightarrow> Inl e
      | Inr acc' \<Rightarrow> scan_documents remove_ignored remove_detectors chunk (Suc index) rest acc')"

text \<open>The body of \<open>for future in as_completed(future_to_scan)\<close>, for the future of
  \<open>chunk\<close>. Reading \<open>scan.scan_results\<close> on a \<open>Detail\<close> raises AttributeError.\<close>

definition scan_completed ::
  "(ScanResult \<Rightarrow> ScanResult) \<Rightarrow> (ScanResult \<Rightarrow> ScanResult) \<Rightarrow>
   Payload list \<Rightarrow> Outcome \<Rightarrow> Acc \<Rightarrow> exn + Acc" where
  "scan_completed remove_ignored remove_detectors chunk outcome acc0 =
     (let acc1 = acc0\<lparr>acc_scanned := acc_scanned acc0 @ [chunk]\<rparr>;
          (scan_response, acc) =
            (case outcome of
               Returned r \<Rightarrow> (r, acc1)
             | Excepted msg \<Rightarrow>
                 (Detail None msg,
                  acc1\<lparr>acc_errors := acc_errors acc1 @
                    [\<lparr>files = map (\<lambda>file. (payload_filename file, payload_filemode file)) chunk,
                      description = msg\<rparr>]\<rparr>))
      in if \<not> success scan_response then
           (case handle_scan_chunk_error scan_response chunk of
              Some e \<Rightarrow> Inl e
            | None \<Rightarrow> Inr acc)
         else
           (case scan_response of
              MultiScanResult _ scanned_list \<Rightarrow>
                scan_documents remove_ignored remove_detectors chunk 0 scanned_list acc
            | Detail _ _ \<Rightarrow> Inl AttributeError))"

text \<open>
  \<open>as_completed\<close> yields every submitted future once, in the order in which the calls
  finish. \<open>completion\<close> lists the indices of the chunks in that order, and \<open>outcome i\<close> is
  what the future of chunk \<open>i\<close> holds.
\<close>

fun scan_futures ::
  "(ScanResult \<Rightarrow> ScanResult) \<Rightarrow> (ScanResult \<Rightarrow> ScanResult) \<Rightarrow>
   Payload list list \<Rightarrow> (nat \<Rightarrow> Outcome) \<Rightarrow> nat list \<Rightarrow> Acc \<Rightarrow> exn + Acc" where
  "scan_futures remove_ignored remove_detectors chunks outcome [] acc = Inr acc"
| "scan_futures remove_ignored remove_detectors chunks outcome (i # completion) acc =
     (case scan_completed remove_ignored remove_detectors (chunks ! i) (outcome i) acc of
        Inl e \<Rightarrow> Inl e
      | Inr acc' \<Rightarrow> scan_futures remove_ignored remove_detectors chunks outcome completion acc')"

text \<open>\<open>Files.scan\<close> returns the results, and leaves the cache and the calls of the
  callback behind it.\<close>

definition Files_scan ::
  "nat \<Rightarrow> (ScanResult \<Rightarrow> ScanResult) \<Rightarrow> (ScanResult \<Rightarrow> ScanResult) \<Rightarrow>
   Files \<Rightarrow> Cache \<Rightarrow> (nat \<Rightarrow> Outcome) \<Rightarrow> nat list \<Rightarrow>
   exn + (Results \<times> Cache \<times> Payload list list)" where
  "Files_scan limit remove_ignored remove_detectors fs cache outcome completion =
     (case make_chunks limit (scannable_list fs) of
        Inl e \<Rightarrow> Inl e
      | Inr chunks \<Rightarrow>
          (case scan_futures remove_ignored remove_detectors chunks outcome completion
                  \<lparr>acc_results = [], acc_errors = [], acc_cache = purge cache, acc_scanned = []\<rparr> of
             Inl e \<Rightarrow> Inl e
           | Inr acc \<Rightarrow>
               Inr (\<lparr>results = acc_results acc, errors = acc_errors acc\<rparr>,
                    save (acc_cache acc), acc_scanned acc)))"

text \<open>
  The results a successful response gives for a chunk: one \<open>Result\<close> for each document,
  in the order of the chunk, whose filtered scan result has policy breaks.
\<close>

definition chunk_results ::
  "(ScanResult \<Rightarrow> ScanResult) \<Rightarrow> (ScanResult \<Rightarrow> ScanResult) \<Rightarrow>
   Payload list \<Rightarrow> ScanResult list \<Rightarrow> Result list" where
  "chunk_results remove_ignored remove_detectors chunk scanned_list =
     map (\<lambda>(file, scanned).
            \<lparr>content = payload_document file, result_filemode = payload_filemode file,
             result_filename = payload_filename file,
             scan = remove_detectors (remove_ignored scanned)\<rparr>)
       (filter (\<lambda>(file, scanned). has_policy_breaks (remove_detectors (remove_ignored scanned)))
          (zip chunk scanned_list))"

definition outcome_results ::
  "(ScanResult \<Rightarrow> ScanResult) \<Rightarrow> (ScanResult \<Rightarrow> ScanResult) \<Rightarrow>
   Payload list \<Rightarrow> Outcome \<Rightarrow> Result list" where
  "outcome_results remove_ignored remove_detectors chunk outcome =
     (case outcome of
        Returned (MultiScanResult code scanned_list) \<Rightarrow>
          (if code = Some 200 then chunk_results remove_ignored remove_detectors chunk scanned_list
           else [])
      | _ \<Rightarrow> [])"

definition outcome_errors :: "Payload list \<Rightarrow> Outcome \<Rightarrow> Error list" where
  "outcome_errors chunk outcome =
     (case outcome of
        Excepted msg \<Rightarrow>
          [\<lparr>files = map (\<lambda>file. (payload_filename file, payload_filemode file)) chunk,
            description = msg\<rparr>]
      | Returned _ \<Rightarrow> [])"

text \<open>A response the scan can read: a failure, or a success with at most one scan result
  for each document of the chunk.\<close>

definition readable :: "Payload list \<Rightarrow> Outcome \<Rightarrow> bool" where
  "readable chunk outcome =
     (case outcome of
        Excepted msg \<Rightarrow> True
      | Returned (Detail code dtext) \<Rightarrow> code \<noteq> Some 200
      | Returned (MultiScanResult code scanned_list) \<Rightarrow>
          code \<noteq> Some 200 \<or> length scanned_list \<le> length chunk)"

section \<open>Commit patches\<close>

text \<open>
  \<open>_RX_HEADER_LINE_SEPARATOR.split(header)\<close>: the header is cut at every newline or NUL
  that is followed by a colon; the two characters of the separator are dropped.
\<close>

fun header_split :: "str \<Rightarrow> str list" where
  "header_split (c # d # cs) =
     (if (c = LF \<or> c = NUL) \<and> d = COLON then [] # header_split cs
      else cons_first c (header_split (d # cs)))"
| "header_split cs = [cs]"

text \<open>
  \<open>re.split(r"^diff ", rest, flags=re.MULTILINE)\<close>: the text is cut at every
  \<open>diff \<close> that starts a line (at the start of the text or right after a newline). The
  flag of \<open>diff_split_from\<close> says whether the current position starts a line.
\<close>

function diff_split_from :: "bool \<Rightarrow> str \<Rightarrow> str list" where
  "diff_split_from bol [] = [[]]"
| "diff_split_from bol (c # cs) =
     (if bol \<and> prefix (py ''diff '') (c # cs) then [] # diff_split_from False (drop 4 cs)
      else cons_first c (diff_split_from (c = LF) cs))"
  by pat_completeness auto
termination
  by (relation "measure (\<lambda>(bol, s). length s)") auto

definition diff_split :: "str \<Rightarrow> str list" where
  "diff_split rest = diff_split_from True rest"

text \<open>
  \<open>len(document.encode("utf-8"))\<close>: one to four bytes for each code point; a surrogate
  (U+D800 to U+DFFF) cannot be encoded and raises UnicodeEncodeError at its index.
\<close>

definition utf8_width :: "nat \<Rightarrow> nat" where
  "utf8_width c = (if c < 128 then 1 else if c < 2048 then 2 else if c < 65536 then 3 else 4)"

definition is_surrogate :: "nat \<Rightarrow> bool" where
  "is_surrogate c = (55296 \<le> c \<and> c \<le> 57343)"

fun utf8_len_from :: "nat \<Rightarrow> str \<Rightarrow> exn + nat" where
  "utf8_len_from i [] = Inr 0"
| "utf8_len_from i (c # cs) =
     (if is_surrogate c then Inl (UnicodeEncodeError i)
      else (case utf8_len_from (Suc i) cs of Inl e \<Rightarrow> Inl e | Inr n \<Rightarrow> Inr (utf8_width c + n)))"

definition utf8_len :: "str \<Rightarrow> exn + nat" where
  "utf8_len s = utf8_len_from 0 s"

text \<open>
  The body of the loop of \<open>Commit.get_files\<close> for one file: \<open>Inr None\<close> is \<open>continue\<close>
  (no file is yielded), \<open>Inr (Some f)\<close> yields \<open>f\<close>. \<open>MAX_FILE_SIZE\<close> (ggshield.core.constants)
  and \<open>is_filepath_excluded\<close> with the commit's exclusion patterns (ggshield.core.filter)
  are not among the sources and are parameters. The source compares the size, an int, with
  the float \<open>MAX_FILE_SIZE * 0.90\<close>; Python compares an int and a float exactly, and for a
  limit below \<open>10^14\<close> the rounded product is on the same side of every integer as the exact
  one, so the test is stated over the reals.
\<close>

definition get_files_step ::
  "nat \<Rightarrow> (str \<Rightarrow> exn + bool) \<Rightarrow> str \<Rightarrow> Filemode \<Rightarrow> str \<Rightarrow> exn + File option" where
  "get_files_step MAX_FILE_SIZE is_filepath_excluded name mode diff =
     (case is_filepath_excluded name of
        Inl e \<Rightarrow> Inl e
      | Inr True \<Rightarrow> Inr None
      | Inr False \<Rightarrow>
          (case str_index (LF # py ''@@'') diff of
             None \<Rightarrow> Inr None
           | Some end_of_headers \<Rightarrow>
               (let doc = drop (end_of_headers + 1) diff in
                case utf8_len doc of
                  Inl e \<Rightarrow> Inl e
                | Inr file_size \<Rightarrow>
                    if real file_size > real MAX_FILE_SIZE * 0.90 then Inr None
                    else if doc \<noteq> [] then Inr (Some (CommitFile_init doc name mode))
                    else Inr None)))"

text \<open>
  A generator is what it yields and how it ends: \<open>None\<close> when it returns, \<open>Some e\<close> when
  it raises \<open>e\<close>. The loop is \<open>for (filename, filemode), diff in zip(names_and_modes,
  diffs)\<close>: \<open>zip\<close> asks the header parser for its next record first (the record is parsed
  then, and the parser may raise), then asks for the next diff, and stops when either is
  exhausted. The lines are those of \<open>_parse_patch_header\<close>, each parsed with its colon put
  back.
\<close>

fun get_files_loop ::
  "nat \<Rightarrow> (str \<Rightarrow> exn + bool) \<Rightarrow> str list \<Rightarrow> str list \<Rightarrow> File list \<times> exn option" where
  "get_files_loop MAX_FILE_SIZE is_filepath_excluded [] all_diffs = ([], None)"
| "get_files_loop MAX_FILE_SIZE is_filepath_excluded (line # lines) all_diffs =
     (case parse_patch_header_line (COLON # line) of
        Inl e \<Rightarrow> ([], Some e)
      | Inr (name, mode) \<Rightarrow>
          (case all_diffs of
             [] \<Rightarrow> ([], None)
           | diff # more_diffs \<Rightarrow>
               (case get_files_step MAX_FILE_SIZE is_filepath_excluded name mode diff of
                  Inl e \<Rightarrow> ([], Some e)
                | Inr None \<Rightarrow> get_files_loop MAX_FILE_SIZE is_filepath_excluded lines more_diffs
                | Inr (Some f) \<Rightarrow>
                    (case get_files_loop MAX_FILE_SIZE is_filepath_excluded lines more_diffs of
                       (fs, raised) \<Rightarrow> (f # fs, raised)))))"

text \<open>The body of the \<open>try\<close> block. \<open>patch\<close> is what reading \<open>self.patch\<close> gives: the
  text of the patch, or the exception of the git command.\<close>

definition get_files_try ::
  "nat \<Rightarrow> (str \<Rightarrow> exn + bool) \<Rightarrow> exn + str \<Rightarrow> File list \<times> exn option" where
  "get_files_try MAX_FILE_SIZE is_filepath_excluded patch =
     (case patch of
        Inl e \<Rightarrow> ([], Some e)
      | Inr patch_text \<Rightarrow>
          (case split_once (NUL # py ''diff '') patch_text of
             None \<Rightarrow> ([], None)
           | Some (header, rest) \<Rightarrow>
               get_files_loop MAX_FILE_SIZE is_filepath_excluded
                 (tl (header_split header)) (diff_split rest)))"

text \<open>\<open>except Exception as exc: raise PatchParseError(...)\<close> around the body.\<close>

definition get_files ::
  "nat \<Rightarrow> (str \<Rightarrow> exn + bool) \<Rightarrow> str option \<Rightarrow> exn + str \<Rightarrow> File list \<times> exn option" where
  "get_files MAX_FILE_SIZE is_filepath_excluded sha patch =
     (case get_files_try MAX_FILE_SIZE is_filepath_excluded patch of
        (fs, raised) \<Rightarrow> (fs, map_option (PatchParseError sha) raised))"

text \<open>The property \<open>Commit.files\<close> of a commit whose files are not known yet:
  \<open>list(self.get_files())\<close> raises what the generator raises, and then nothing is stored.\<close>

definition Commit_files ::
  "nat \<Rightarrow> (str \<Rightarrow> exn + bool) \<Rightarrow> str option \<Rightarrow> exn + str \<Rightarrow> exn + Files" where
  "Commit_files MAX_FILE_SIZE is_filepath_excluded sha patch =
     (case get_files MAX_FILE_SIZE is_filepath_excluded sha patch of
        (fs, None) \<Rightarrow> Inr (Files_init fs)
      | (fs, Some e) \<Rightarrow> Inl e)"

section \<open>Scan collections\<close>

text \<open>
  The named tuple \<open>ScanCollection\<close>. \<open>IaCScanResult\<close> belongs to ggshield.iac.models, which
  is not among the sources; nothing here reads inside it.
\<close>

typedecl IaCScanResult

datatype ScanCollection =
  ScanCollection
    (sc_id: str)
    (sc_type: str)
    (sc_results: "Results option")
    (sc_scans: "ScanCollection list option")
    (sc_iac_result: "IaCScanResult option")
    (sc_optional_header: "str option")
    (sc_extra_info: "(str \<times> str) list option")

text \<open>
  \<open>if self.scans\<close> holds for a list that is neither \<open>None\<close> nor empty; \<open>if scan.results\<close>
  holds for every \<open>Results\<close> object (the dataclass defines neither \<open>__bool__\<close> nor
  \<open>__len__\<close>), so it fails for \<open>None\<close> only.
\<close>

definition scans_with_results :: "ScanCollection \<Rightarrow> ScanCollection list" where
  "scans_with_results c =
     (case sc_scans c of
        None \<Rightarrow> []
      | Some sub \<Rightarrow> if sub \<noteq> [] then filter (\<lambda>s. sc_results s \<noteq> None) sub else [])"

definition has_results :: "ScanCollection \<Rightarrow> bool" where
  "has_results c = (case sc_results c of None \<Rightarrow> False | Some r \<Rightarrow> results r \<noteq> [])"

text \<open>
  \<open>for scan in self.scans: yield from scan.results.results\<close>, as a generator: what is
  yielded, and the exception that ends it, if any. \<open>scan.results.results\<close> on a sub-scan
  whose \<open>results\<close> is \<open>None\<close> raises AttributeError.
\<close>

fun sub_scan_results :: "ScanCollection list \<Rightarrow> Result list \<times> exn option" where
  "sub_scan_results [] = ([], None)"
| "sub_scan_results (s # sub) =
     (case sc_results s of
        None \<Rightarrow> ([], Some AttributeError)
      | Some r \<Rightarrow> (case sub_scan_results sub of (rs, raised) \<Rightarrow> (results r @ rs, raised)))"

definition get_all_results :: "ScanCollection \<Rightarrow> Result list \<times> exn option" where
  "get_all_results c =
     (let own = (case sc_results c of None \<Rightarrow> [] | Some r \<Rightarrow> results r) in
      case sc_scans c of
        None \<Rightarrow> (own, None)
      | Some sub \<Rightarrow>
          if sub \<noteq> [] then (case sub_scan_results sub of (rs, raised) \<Rightarrow> (own @ rs, raised))
          else (own, None))"

text \<open>The results of a collection itself: those of its \<open>results\<close> field, none when the
  field is \<open>None\<close>.\<close>

definition own_results :: "ScanCollection \<Rightarrow> Result list" where
  "own_results c = (case sc_results c of None \<Rightarrow> [] | Some r \<Rightarrow> results r)"

section \<open>Pre-push diff scan\<close>

text \<open>
  \<open>scan_pre_push_cmd\<close>: the remote commit given by the hook is dropped when it contains
  \<open>~1\<close> or is \<open>EMPTY_SHA\<close> (a constant of ggshield.core.utils, a parameter here).
\<close>

definition previous_ref :: "str \<Rightarrow> str \<Rightarrow> str option" where
  "previous_ref EMPTY_SHA remote_commit =
     (if str_contains (py ''~1'') remote_commit \<or> remote_commit = EMPTY_SHA then None
      else Some remote_commit)"

text \<open>The three lists read by \<open>create_diff_scan_dict\<close> in
  \<open>scan.result.entities_with_incidents\<close>, and the dictionary it builds.\<close>

record 'a IaCDiffEntities =
  new :: "'a list"
  unchanged :: "'a list"
  deleted :: "'a list"

record 'a IaCDiffScanResult =
  entities_with_incidents :: "'a IaCDiffEntities"

record 'a IaCDiffScanCollection =
  result :: "'a IaCDiffScanResult option"

record 'a DiffScanDict =
  added_vulns :: "'a list"
  persisting_vulns :: "'a list"
  removed_vulns :: "'a list"

definition create_diff_scan_dict :: "'a IaCDiffScanCollection \<Rightarrow> 'a DiffScanDict" where
  "create_diff_scan_dict scan_collection =
     (let ret = \<lparr>added_vulns = [], persisting_vulns = [], removed_vulns = []\<rparr> in
      case result scan_collection of
        None \<Rightarrow> ret
      | Some r \<Rightarrow>
          ret\<lparr>added_vulns :=
                 foldl (\<lambda>acc incident. acc @ [incident]) (added_vulns ret)
                   (new (entities_with_incidents r)),
              persisting_vulns :=
                 foldl (\<lambda>acc incident. acc @ [incident]) (persisting_vulns ret)
                   (unchanged (entities_with_incidents r)),
              removed_vulns :=
                 foldl (\<lambda>acc incident. acc @ [incident]) (removed_vulns ret)
                   (deleted (entities_with_incidents r))\<rparr>)"

text \<open>
  Modelled from the spec: the diff reconciler (behind \<open>iac_scan_diff\<close>, module
  ggshield.cmd.iac.scan.diff) is not among the sources. The spec (4.5) takes the findings
  of the baseline and of the current state, each with an identity, and gives \<open>new\<close> (in
  current, not in baseline), \<open>unchanged\<close> (in both) and \<open>deleted\<close> (in baseline, not in
  current); an absent baseline is an empty one.
\<close>

definition reconcile :: "'a list option \<Rightarrow> 'a list \<Rightarrow> 'a IaCDiffEntities" where
  "reconcile baseline current =
     (let base = (case baseline of None \<Rightarrow> [] | Some b \<Rightarrow> b) in
      \<lparr>new = filter (\<lambda>x. x \<notin> set base) current,
       unchanged = filter (\<lambda>x. x \<in> set base) current,
       deleted = filter (\<lambda>x. x \<notin> set current) base\<rparr>)"

text \<open>
  Modelled from the spec: \<open>iac_scan_diff(ctx, directory, previous_ref, include_staged)\<close> is
  not among the sources. \<open>findings_at\<close> gives the findings of the repository at a
  reference, \<open>current\<close> those of the state being pushed; the baseline is absent when the
  reference is \<open>None\<close>.
\<close>

definition iac_scan_diff ::
  "(str \<Rightarrow> 'a list) \<Rightarrow> 'a list \<Rightarrow> str option \<Rightarrow> 'a IaCDiffScanCollection" where
  "iac_scan_diff findings_at current ref =
     \<lparr>result = Some \<lparr>entities_with_incidents =
                        reconcile (map_option findings_at ref) current\<rparr>\<rparr>"

definition scan_pre_push_cmd ::
  "str \<Rightarrow> (str \<Rightarrow> 'a list) \<Rightarrow> 'a list \<Rightarrow> str \<Rightarrow> 'a IaCDiffScanCollection" where
  "scan_pre_push_cmd EMPTY_SHA findings_at current remote_commit =
     iac_scan_diff findings_at current (previous_ref EMPTY_SHA remote_commit)"

section \<open>Inputs used by the witnesses\<close>

definition merge_line :: str where
  "merge_line = py ''::100644 100644 100644 aaa bbb ccc DM'' @ [NUL] @ py ''f.py'' @ [NUL]"

definition rename_line :: str where
  "rename_line = py '':100644 100644 aaa bbb R086'' @ [NUL] @ py ''f.py'' @ [NUL] @ py ''g.py'' @ [NUL]"

definition delete_line :: str where
  "delete_line = py '':100644 000000 aaa 000 D'' @ [NUL] @ py ''f.py''"

definition copy_line :: str where
  "copy_line = py '':100644 100644 aaa aaa C75'' @ [NUL] @ py ''f.py'' @ [NUL] @ py ''h.py'' @ [NUL]"

definition add_line :: str where
  "add_line = py '':000000 100644 000 aaa A'' @ [NUL] @ py ''f.py'' @ [NUL]"

definition type_line :: str where
  "type_line = py '':100644 120000 aaa bbb T'' @ [NUL] @ py ''f.py'' @ [NUL]"

definition long_name_file :: File where
  "long_name_file = File_init (py ''x = 1'') (replicate 45 97 @ replicate 255 98)"

definition file_a1 :: File where
  "file_a1 = File_init (py ''v1'') (py ''src/a'')"

definition file_b :: File where
  "file_b = File_init (py ''w'') (py ''src/b'')"

definition file_a2 :: File where
  "file_a2 = CommitFile_init (py ''v2'') (py ''src/a'') MODIFY"

definition under_src :: "str \<Rightarrow> exn + str" where
  "under_src name =
     (if prefix (py ''src/'') name then Inr (drop 4 name)
      else Inl (ValueError (name @ py '' is not in the subpath of src'')))"

definition nth_name :: "nat \<Rightarrow> str" where
  "nth_name i = [102, 48 + i]"

definition nth_file :: "nat \<Rightarrow> File" where
  "nth_file i = File_init (py ''key = 1'') (nth_name i)"

definition nth_payload :: "nat \<Rightarrow> Payload" where
  "nth_payload i = \<lparr>payload_filename = nth_name i, payload_document = py ''key = 1'', payload_filemode = FILE\<rparr>"

definition some_files :: "nat \<Rightarrow> File list" where
  "some_files n = map nth_file [0..<n]"

definition leak :: PolicyBreak where
  "leak = PolicyBreak (py ''Generic Password'') (py ''Secrets detection'') [py ''1'']"

definition hit :: ScanResult where
  "hit = \<lparr>policy_break_count = 1, policy_breaks = [leak]\<rparr>"

definition clean :: ScanResult where
  "clean = \<lparr>policy_break_count = 0, policy_breaks = []\<rparr>"

definition empty_cache :: Cache where
  "empty_cache = \<lparr>found = [], persisted = []\<rparr>"

definition hit_result :: "nat \<Rightarrow> Result" where
  "hit_result i = \<lparr>content = py ''key = 1'', result_filemode = FILE, result_filename = nth_name i, scan = hit\<rparr>"

definition three_chunks_outcome :: "nat \<Rightarrow> Outcome" where
  "three_chunks_outcome i =
     (if i = 1 then Excepted (py ''Connection reset by peer'')
      else Returned (MultiScanResult (Some 200) (hit # replicate (if i = 0 then 19 else 4) clean)))"

definition two_chunks_outcome :: "nat \<Rightarrow> Outcome" where
  "two_chunks_outcome i =
     Returned (MultiScanResult (Some 200) (if i = 0 then hit # replicate 19 clean else [hit]))"

definition good_patch :: str where
  "good_patch =
     py ''commit 9f2c'' @ [LF, NUL]
     @ py '':100644 100644 aaa bbb M'' @ [NUL] @ py ''f.py'' @ [NUL]
     @ py '':100644 100755 ccc ccc M'' @ [NUL] @ py ''g.sh'' @ [NUL]
     @ [NUL] @ py ''diff --git a/f.py b/f.py'' @ [LF]
     @ py ''@@ -1 +1 @@'' @ [LF] @ py ''-x'' @ [LF] @ py ''+y'' @ [LF]
     @ py ''diff --git a/g.sh b/g.sh'' @ [LF] @ py ''old mode 100644'' @ [LF]
     @ py ''new mode 100755'' @ [LF]"

definition good_record :: str where
  "good_record = py ''100644 100644 aaa bbb M'' @ [NUL] @ py ''f.py''"

definition bad_record :: str where
  "bad_record = py ''100644 100644 ccc ddd X'' @ [NUL] @ py ''g.py'' @ [NUL]"

definition bad_header :: str where
  "bad_header = py ''commit 9f2c'' @ [LF, NUL, COLON] @ good_record @ [NUL, COLON] @ bad_record"

definition bad_body :: str where
  "bad_body =
     py ''--git a/f.py b/f.py'' @ [LF]
     @ py ''@@ -1 +1 @@'' @ [LF] @ py ''-x'' @ [LF] @ py ''+y'' @ [LF]
     @ py ''diff --git a/g.py b/g.py'' @ [LF]
     @ py ''@@ -1 +1 @@'' @ [LF] @ py ''-u'' @ [LF] @ py ''+v'' @ [LF]"

definition bad_patch :: str where
  "bad_patch = bad_header @ [NUL] @ py ''diff '' @ bad_body"

definition never_excluded :: "str \<Rightarrow> exn + bool" where
  "never_excluded name = Inr False"

definition mode_only_diff :: str where
  "mode_only_diff =
     py ''--git a/g.sh b/g.sh'' @ [LF] @ py ''old mode 100644'' @ [LF] @ py ''new mode 100755'' @ [LF]"

definition small_diff :: str where
  "small_diff =
     py ''--git a/f.py b/f.py'' @ [LF] @ py ''@@ -1 +1 @@'' @ [LF] @ py ''-x'' @ [LF] @ py ''+y'' @ [LF]"

definition small_file :: File where
  "small_file =
     CommitFile_init (py ''@@ -1 +1 @@'' @ [LF] @ py ''-x'' @ [LF] @ py ''+y'' @ [LF]) (py ''f.py'') MODIFY"

definition sub_scan :: "str \<Rightarrow> Results option \<Rightarrow> ScanCollection" where
  "sub_scan name res = ScanCollection name (py ''commit'') res None None None None"

definition commit_range :: "ScanCollection list \<Rightarrow> ScanCollection" where
  "commit_range sub =
     ScanCollection (py ''range'') (py ''commit-range'')
       (Some \<lparr>results = [hit_result 0], errors = []\<rparr>) (Some sub) None None None"

definition scanned_ok :: "nat \<Rightarrow> ScanCollection" where
  "scanned_ok i = sub_scan (nth_name i) (Some \<lparr>results = [hit_result i], errors = []\<rparr>)"

definition not_scanned :: ScanCollection where
  "not_scanned = sub_scan (py ''skipped'') None"

definition zero_sha :: str where
  "zero_sha = replicate 40 48"

definition findings_before :: "str \<Rightarrow> str list" where
  "findings_before ref = [py ''A'', py ''B'']"

section \<open>Properties\<close>

lemmas str_simps = py_def NUL_def LF_def SPACE_def COLON_def APOSTROPHE_def rstrip_def rsplit1_last_def

text \<open>
  C1. In a header record with at least a prefix and a name, the status string (the text after
  the last space of the prefix, trailing digits stripped) decides the filemode in this
  order: M gives MODIFY, else C gives NEW, else A gives NEW, else T gives NEW, else R gives
  RENAME, else D gives DELETE. A status holding both M and D gives MODIFY. The name is the
  new name when the record has one.
\<close>

theorem status_letter_precedence:
  assumes "split_char NUL (rstrip [NUL] line) = pfx # name # rest"
  shows
    "(of_char CHR ''M'' \<in> set (status_of_prefix pfx) \<longrightarrow>
        parse_patch_header_line line = Inr (case rest of [] \<Rightarrow> name | n # _ \<Rightarrow> n, MODIFY)) \<and>
     (of_char CHR ''M'' \<notin> set (status_of_prefix pfx) \<and>
      of_char CHR ''C'' \<in> set (status_of_prefix pfx) \<longrightarrow>
        parse_patch_header_line line = Inr (case rest of [] \<Rightarrow> name | n # _ \<Rightarrow> n, NEW)) \<and>
     (of_char CHR ''M'' \<notin> set (status_of_prefix pfx) \<and>
      of_char CHR ''C'' \<notin> set (status_of_prefix pfx) \<and>
      of_char CHR ''A'' \<in> set (status_of_prefix pfx) \<longrightarrow>
        parse_patch_header_line line = Inr (case rest of [] \<Rightarrow> name | n # _ \<Rightarrow> n, NEW)) \<and>
     (of_char CHR ''M'' \<notin> set (status_of_prefix pfx) \<and>
      of_char CHR ''C'' \<notin> set (status_of_prefix pfx) \<and>
      of_char CHR ''A'' \<notin> set (status_of_prefix pfx) \<and>
      of_char CHR ''T'' \<in> set (status_of_prefix pfx) \<longrightarrow>
        parse_patch_header_line line = Inr (case rest of [] \<Rightarrow> name | n # _ \<Rightarrow> n, NEW)) \<and>
     (of_char CHR ''M'' \<notin> set (status_of_prefix pfx) \<and>
      of_char CHR ''C'' \<notin> set (status_of_prefix pfx) \<and>
      of_char CHR ''A'' \<notin> set (status_of_prefix pfx) \<and>
      of_char CHR ''T'' \<notin> set (status_of_prefix pfx) \<and>
      of_char CHR ''R'' \<in> set (status_of_prefix pfx) \<longrightarrow>
        parse_patch_header_line line = Inr (case rest of [] \<Rightarrow> name | n # _ \<Rightarrow> n, RENAME)) \<and>
     (of_char CHR ''M'' \<notin> set (status_of_prefix pfx) \<and>
      of_char CHR ''C'' \<notin> set (status_of_prefix pfx) \<and>
      of_char CHR ''A'' \<notin> set (status_of_prefix pfx) \<and>
      of_char CHR ''T'' \<notin> set (status_of_prefix pfx) \<and>
      of_char CHR ''R'' \<notin> set (status_of_prefix pfx) \<and>
      of_char CHR ''D'' \<in> set (status_of_prefix pfx) \<longrightarrow>
        parse_patch_header_line line = Inr (case rest of [] \<Rightarrow> name | n # _ \<Rightarrow> n, DELETE)) \<and>
     (of_char CHR ''M'' \<in> set (status_of_prefix pfx) \<and>
      of_char CHR ''D'' \<in> set (status_of_prefix pfx) \<longrightarrow>
        parse_patch_header_line line = Inr (case rest of [] \<Rightarrow> name | n # _ \<Rightarrow> n, MODIFY))"
  using assms by (simp add: parse_patch_header_line_def Let_def)

theorem status_letter_precedence_witness:
  "split_char NUL (rstrip [NUL] merge_line)
     = [py ''::100644 100644 100644 aaa bbb ccc DM'', py ''f.py''] \<and>
   status_of_prefix (py ''::100644 100644 100644 aaa bbb ccc DM'') = py ''DM'' \<and>
   parse_patch_header_line merge_line = Inr (py ''f.py'', MODIFY) \<and>
   split_char NUL (rstrip [NUL] rename_line)
     = [py '':100644 100644 aaa bbb R086'', py ''f.py'', py ''g.py''] \<and>
   status_of_prefix (py '':100644 100644 aaa bbb R086'') = py ''R'' \<and>
   parse_patch_header_line rename_line = Inr (py ''g.py'', RENAME) \<and>
   split_char NUL (rstrip [NUL] delete_line) = [py '':100644 000000 aaa 000 D'', py ''f.py''] \<and>
   status_of_prefix (py '':100644 000000 aaa 000 D'') = py ''D'' \<and>
   parse_patch_header_line delete_line = Inr (py ''f.py'', DELETE) \<and>
   split_char NUL (rstrip [NUL] copy_line)
     = [py '':100644 100644 aaa aaa C75'', py ''f.py'', py ''h.py''] \<and>
   status_of_prefix (py '':100644 100644 aaa aaa C75'') = py ''C'' \<and>
   parse_patch_header_line copy_line = Inr (py ''h.py'', NEW) \<and>
   split_char NUL (rstrip [NUL] add_line) = [py '':000000 100644 000 aaa A'', py ''f.py''] \<and>
   status_of_prefix (py '':000000 100644 000 aaa A'') = py ''A'' \<and>
   parse_patch_header_line add_line = Inr (py ''f.py'', NEW) \<and>
   split_char NUL (rstrip [NUL] type_line) = [py '':100644 120000 aaa bbb T'', py ''f.py''] \<and>
   status_of_prefix (py '':100644 120000 aaa bbb T'') = py ''T'' \<and>
   parse_patch_header_line type_line = Inr (py ''f.py'', NEW)"
proof -
  have m: "split_char NUL (rstrip [NUL] merge_line)
     = [py ''::100644 100644 100644 aaa bbb ccc DM'', py ''f.py'']"
    by (simp add: merge_line_def str_simps)
  have ms: "status_of_prefix (py ''::100644 100644 100644 aaa bbb ccc DM'') = py ''DM''"
    by (simp add: status_of_prefix_def str_simps)
  have r: "split_char NUL (rstrip [NUL] rename_line)
     = [py '':100644 100644 aaa bbb R086'', py ''f.py'', py ''g.py'']"
    by (simp add: rename_line_def str_simps)
  have rs: "status_of_prefix (py '':100644 100644 aaa bbb R086'') = py ''R''"
    by (simp add: status_of_prefix_def str_simps)
  have d: "split_char NUL (rstrip [NUL] delete_line) = [py '':100644 000000 aaa 000 D'', py ''f.py'']"
    by (simp add: delete_line_def str_simps)
  have ds: "status_of_prefix (py '':100644 000000 aaa 000 D'') = py ''D''"
    by (simp add: status_of_prefix_def str_simps)
  have c: "split_char NUL (rstrip [NUL] copy_line)
     = [py '':100644 100644 aaa aaa C75'', py ''f.py'', py ''h.py'']"
    by (simp add: copy_line_def str_simps)
  have cs: "status_of_prefix (py '':100644 100644 aaa aaa C75'') = py ''C''"
    by (simp add: status_of_prefix_def str_simps)
  have a: "split_char NUL (rstrip [NUL] add_line) = [py '':000000 100644 000 aaa A'', py ''f.py'']"
    by (simp add: add_line_def str_simps)
  have ad: "status_of_prefix (py '':000000 100644 000 aaa A'') = py ''A''"
    by (simp add: status_of_prefix_def str_simps)
  have t: "split_char NUL (rstrip [NUL] type_line) = [py '':100644 120000 aaa bbb T'', py ''f.py'']"
    by (simp add: type_line_def str_simps)
  have ts: "status_of_prefix (py '':100644 120000 aaa bbb T'') = py ''T''"
    by (simp add: status_of_prefix_def str_simps)
  have "parse_patch_header_line merge_line = Inr (py ''f.py'', MODIFY)"
    using status_letter_precedence [OF m] by (simp add: ms) (simp add: py_def)
  moreover have "parse_patch_header_line rename_line = Inr (py ''g.py'', RENAME)"
    using status_letter_precedence [OF r] by (simp add: rs) (simp add: py_def)
  moreover have "parse_patch_header_line delete_line = Inr (py ''f.py'', DELETE)"
    using status_letter_precedence [OF d] by (simp add: ds) (simp add: py_def)
  moreover have "parse_patch_header_line copy_line = Inr (py ''h.py'', NEW)"
    using status_letter_precedence [OF c] by (simp add: cs) (simp add: py_def)
  moreover have "parse_patch_header_line add_line = Inr (py ''f.py'', NEW)"
    using status_letter_precedence [OF a] by (simp add: ad) (simp add: py_def)
  moreover have "parse_patch_header_line type_line = Inr (py ''f.py'', NEW)"
    using status_letter_precedence [OF t] by (simp add: ts) (simp add: py_def)
  ultimately show ?thesis using m ms r rs d ds c cs a ad t ts by simp
qed

text \<open>
  C7. The payload's filename is the file's filename when it has at most 256 characters, and
  otherwise its last 255 characters (a suffix of length 255; for a filename of 300
  characters, what is left after dropping the first 45). The payload's document and
  filemode are the file's.
\<close>

theorem scan_dict_filename_cap:
  "(length (filename f) \<le> 256 \<longrightarrow> payload_filename (scan_dict f) = filename f) \<and>
   (256 < length (filename f) \<longrightarrow>
      length (payload_filename (scan_dict f)) = 255 \<and>
      suffix (payload_filename (scan_dict f)) (filename f)) \<and>
   (length (filename f) = 300 \<longrightarrow> payload_filename (scan_dict f) = drop 45 (filename f)) \<and>
   payload_document (scan_dict f) = document f \<and>
   payload_filemode (scan_dict f) = filemode f"
  by (simp add: scan_dict_def last255_def suffix_drop)

theorem scan_dict_filename_cap_witness:
  "length (filename long_name_file) = 300 \<and>
   payload_filename (scan_dict long_name_file) = replicate 255 98 \<and>
   payload_filename (scan_dict long_name_file) \<noteq> take 255 (filename long_name_file) \<and>
   payload_filename (scan_dict (File_init (py ''x = 1'') (py ''a.py''))) = py ''a.py''"
proof -
  have l: "length (filename long_name_file) = 300"
    by (simp add: long_name_file_def File_init_def)
  have "payload_filename (scan_dict long_name_file) = replicate 255 98"
    using scan_dict_filename_cap [of long_name_file] l
    by (simp add: long_name_file_def File_init_def)
  moreover have "replicate 255 (98::nat) \<noteq> take 255 (filename long_name_file)"
  proof
    assume "replicate 255 (98::nat) = take 255 (filename long_name_file)"
    then have "hd (replicate 255 (98::nat)) = hd (take 255 (filename long_name_file))"
      by simp
    then show False
      by (simp add: long_name_file_def File_init_def)
  qed
  moreover have "payload_filename (scan_dict (File_init (py ''x = 1'') (py ''a.py''))) = py ''a.py''"
    using scan_dict_filename_cap [of "File_init (py ''x = 1'') (py ''a.py'')"]
    by (simp add: File_init_def py_def)
  ultimately show ?thesis using l by simp
qed

lemma dict_set_keys:
  "map fst (dict_set k v d) = (if k \<in> fst ` set d then map fst d else map fst d @ [k])"
  by (induction d) force+

lemma dict_set_distinct: "distinct (map fst d) \<Longrightarrow> distinct (map fst (dict_set k v d))"
  by (simp add: dict_set_keys)

lemma dict_set_map_of: "map_of (dict_set k v d) = (map_of d)(k \<mapsto> v)"
  by (induction d) auto

lemma dict_set_keyed: "keyed d \<Longrightarrow> keyed (dict_set (filename f) f d)"
  unfolding keyed_def by (induction d) (auto split: if_splits)

lemma foldl_dict_inv:
  "distinct (map fst d) \<Longrightarrow> keyed d \<Longrightarrow>
   distinct (map fst (foldl (\<lambda>d entry. dict_set (filename entry) entry d) d entries)) \<and>
   keyed (foldl (\<lambda>d entry. dict_set (filename entry) entry d) d entries)"
  by (induction entries arbitrary: d) (simp_all add: dict_set_distinct dict_set_keyed)

lemma Files_init_inv: "distinct (map fst (Files_init entries)) \<and> keyed (Files_init entries)"
  unfolding Files_init_def by (rule foldl_dict_inv) (simp_all add: keyed_def)

lemma keyed_filenames: "keyed d \<Longrightarrow> map filename (dict_values d) = map fst d"
  unfolding keyed_def dict_values_def by (induction d) auto

lemma Files_init_unique: "distinct (map filename (dict_values (Files_init entries)))"
  using Files_init_inv [of entries] by (simp add: keyed_filenames)

lemma foldl_dict_map_of:
  "map_of (foldl (\<lambda>d entry. dict_set (filename entry) entry d) d entries) name =
     (case filter (\<lambda>f. filename f = name) entries of
        [] \<Rightarrow> map_of d name
      | f # fs \<Rightarrow> Some (last (f # fs)))"
proof (induction entries arbitrary: d)
  case Nil
  show ?case by simp
next
  case (Cons e es)
  show ?case
    by (simp add: Cons.IH dict_set_map_of split: list.splits)
qed

lemma Files_init_lookup:
  "map_of (Files_init entries) name =
     (case filter (\<lambda>f. filename f = name) entries of
        [] \<Rightarrow> None
      | f # fs \<Rightarrow> Some (last (f # fs)))"
  unfolding Files_init_def by (simp add: foldl_dict_map_of split: list.splits)

lemma chunks_from_concat: "0 < limit \<Longrightarrow> concat (chunks_from limit i xs) = drop i xs"
proof (induction limit i xs rule: chunks_from.induct)
  case (1 limit i xs)
  show ?case
  proof (cases "length xs \<le> i")
    case True
    then show ?thesis by (simp add: chunks_from.simps)
  next
    case False
    with 1 have "concat (chunks_from limit (i + limit) xs) = drop (i + limit) xs" by simp
    moreover have "take limit (drop i xs) @ drop (i + limit) xs = drop i xs"
      by (metis append_take_drop_id drop_drop add.commute)
    ultimately show ?thesis
      using False 1(2) by (subst chunks_from.simps) simp
  qed
qed

lemma chunks_from_sizes:
  "c \<in> set (chunks_from limit i xs) \<Longrightarrow> 0 < length c \<and> length c \<le> limit"
proof (induction limit i xs rule: chunks_from.induct)
  case (1 limit i xs)
  from 1(2) have ne: "\<not> (limit = 0 \<or> length xs \<le> i)"
    by (subst (asm) chunks_from.simps) (auto split: if_splits)
  from 1(2) ne have "c = take limit (drop i xs) \<or> c \<in> set (chunks_from limit (i + limit) xs)"
    by (subst (asm) chunks_from.simps) auto
  then show ?case
  proof
    assume "c = take limit (drop i xs)"
    with ne show ?thesis by auto
  next
    assume "c \<in> set (chunks_from limit (i + limit) xs)"
    with 1(1) ne show ?thesis by blast
  qed
qed

lemma chunks_from_three:
  assumes "5 \<le> limit" "length xs = limit * 2 + 5"
  shows "chunks_from limit 0 xs = [take limit xs, take limit (drop limit xs), drop (limit * 2) xs]"
proof -
  have "chunks_from limit (limit + limit + limit) xs = []"
    using assms by (subst chunks_from.simps) simp
  then have "chunks_from limit (limit + limit) xs = [drop (limit * 2) xs]"
    using assms by (subst chunks_from.simps) (simp add: mult_2_right)
  then have "chunks_from limit limit xs = [take limit (drop limit xs), drop (limit * 2) xs]"
    using assms by (subst chunks_from.simps) simp
  then show ?thesis
    using assms by (subst chunks_from.simps) simp
qed

lemma values_member:
  assumes "distinct (map fst d)"
  shows "f \<in> set (dict_values d) \<longleftrightarrow> (\<exists>k. map_of d k = Some f)"
  using assms by (auto simp: dict_values_def image_iff) (metis snd_conv)

lemma Files_init_member:
  "f \<in> set (dict_values (Files_init entries)) \<longleftrightarrow>
     f \<in> set entries \<and> last (filter (\<lambda>g. filename g = filename f) entries) = f"
proof -
  have d: "distinct (map fst (Files_init entries))"
    using Files_init_inv by blast
  have last_in: "filename (last (g # gs)) = name \<and> last (g # gs) \<in> set entries"
    if "filter (\<lambda>f. filename f = name) entries = g # gs" for name g gs
  proof -
    have "last (g # gs) \<in> set (filter (\<lambda>f. filename f = name) entries)"
      unfolding that by (rule last_in_set) simp
    then show ?thesis by simp
  qed
  show ?thesis
  proof
    assume "f \<in> set (dict_values (Files_init entries))"
    then obtain k where k: "map_of (Files_init entries) k = Some f"
      using values_member [OF d] by blast
    then obtain g gs where g: "filter (\<lambda>f. filename f = k) entries = g # gs" "f = last (g # gs)"
      by (auto simp: Files_init_lookup split: list.splits)
    with last_in [OF g(1)] show "f \<in> set entries \<and> last (filter (\<lambda>g. filename g = filename f) entries) = f"
      by simp
  next
    assume a: "f \<in> set entries \<and> last (filter (\<lambda>g. filename g = filename f) entries) = f"
    then have "filter (\<lambda>g. filename g = filename f) entries \<noteq> []"
      by (auto simp: filter_empty_conv)
    then obtain g gs where "filter (\<lambda>g. filename g = filename f) entries = g # gs"
      by (cases "filter (\<lambda>g. filename g = filename f) entries") auto
    with a have "map_of (Files_init entries) (filename f) = Some f"
      by (simp add: Files_init_lookup)
    then show "f \<in> set (dict_values (Files_init entries))"
      using values_member [OF d] by blast
  qed
qed

text \<open>
  C5. A collection built from a list of files never holds two units with the same filename:
  its units are exactly the files of the list that are the last one with their filename.
  Filtering a collection and rewriting its paths build their result with the same
  constructor, so the result has no two units with the same filename either.
\<close>

theorem collection_unique_filenames:
  "distinct (map filename (dict_values (Files_init entries))) \<and>
   (f \<in> set (dict_values (Files_init entries)) \<longleftrightarrow>
      f \<in> set entries \<and> last (filter (\<lambda>g. filename g = filename f) entries) = f) \<and>
   distinct (map filename (dict_values (apply_filter filter_func fs))) \<and>
   (Files_relative_to rel fs = Inr fs' \<longrightarrow> distinct (map filename (dict_values fs')))"
  using Files_init_member [of f entries]
  by (auto simp: Files_init_unique apply_filter_def Files_relative_to_def split: sum.splits)

text \<open>
  C3. With a positive document limit, the payload list is cut into contiguous chunks:
  their concatenation is the list itself, and each chunk is non-empty and has at most
  \<open>limit\<close> elements. A list of \<open>limit * 2 + 5\<close> payloads, for a limit of at least 5
  (the client library's is 20), gives three chunks of sizes \<open>limit\<close>, \<open>limit\<close> and 5.
\<close>

theorem chunk_partition:
  assumes "0 < limit"
  shows "\<exists>chunks. make_chunks limit xs = Inr chunks \<and>
           concat chunks = xs \<and>
           (\<forall>c \<in> set chunks. 0 < length c \<and> length c \<le> limit) \<and>
           (5 \<le> limit \<and> length xs = limit * 2 + 5 \<longrightarrow>
              chunks = [take limit xs, take limit (drop limit xs), drop (limit * 2) xs] \<and>
              map length chunks = [limit, limit, 5])"
proof -
  have "concat (chunks_from limit 0 xs) = xs"
    using assms by (simp add: chunks_from_concat)
  moreover have "\<forall>c \<in> set (chunks_from limit 0 xs). 0 < length c \<and> length c \<le> limit"
    using chunks_from_sizes by blast
  moreover have "chunks_from limit 0 xs = [take limit xs, take limit (drop limit xs), drop (limit * 2) xs] \<and>
      map length (chunks_from limit 0 xs) = [limit, limit, 5]"
    if "5 \<le> limit" "length xs = limit * 2 + 5"
    using that by (simp add: chunks_from_three)
  ultimately show ?thesis
    using assms by (simp add: make_chunks_def)
qed

theorem collection_unique_filenames_witness:
  "dict_values (Files_init [file_a1, file_b, file_a2]) = [file_a2, file_b] \<and>
   distinct (map filename (dict_values (Files_init [file_a1, file_b, file_a2]))) \<and>
   file_a1 \<notin> set (dict_values (Files_init [file_a1, file_b, file_a2])) \<and>
   Files_relative_to under_src (Files_init [file_a1, file_b, file_a2])
     = Inr [(py ''a'', File_init (py ''v2'') (py ''a'')), (py ''b'', File_init (py ''w'') (py ''b''))] \<and>
   distinct (map filename (dict_values
     [(py ''a'', File_init (py ''v2'') (py ''a'')), (py ''b'', File_init (py ''w'') (py ''b''))]))"
proof -
  have v: "Files_init [file_a1, file_b, file_a2] = [(py ''src/a'', file_a2), (py ''src/b'', file_b)]"
    by (simp add: Files_init_def file_a1_def file_b_def file_a2_def File_init_def
        CommitFile_init_def py_def)
  have r: "Files_relative_to under_src (Files_init [file_a1, file_b, file_a2])
     = Inr [(py ''a'', File_init (py ''v2'') (py ''a'')), (py ''b'', File_init (py ''w'') (py ''b''))]"
    unfolding v
    by (simp add: Files_relative_to_def File_relative_to_def dict_values_def under_src_def
        Files_init_def file_b_def file_a2_def File_init_def CommitFile_init_def py_def)
  have n: "last (filter (\<lambda>g. filename g = filename file_a1) [file_a1, file_b, file_a2]) \<noteq> file_a1"
    by (simp add: file_a1_def file_b_def file_a2_def File_init_def CommitFile_init_def py_def)
  show ?thesis
    using collection_unique_filenames [of "[file_a1, file_b, file_a2]" file_a1 "\<lambda>f. True"
        "Files_init [file_a1, file_b, file_a2]" under_src
        "[(py ''a'', File_init (py ''v2'') (py ''a'')), (py ''b'', File_init (py ''w'') (py ''b''))]"]
      r n
    by (simp add: v dict_values_def)
qed

theorem chunk_partition_witness:
  "(0::nat) < 20 \<and> (5::nat) \<le> 20 \<and> length [0..<45] = 20 * 2 + 5 \<and>
   make_chunks 20 [0..<45] = Inr [[0..<20], [20..<40], [40..<45]] \<and>
   make_chunks 20 [0..<7] = Inr [[0..<7]]"
proof -
  obtain chunks where c: "make_chunks 20 [0..<45] = Inr chunks"
    "(5::nat) \<le> 20 \<and> length [0..<45] = 20 * 2 + 5 \<longrightarrow>
       chunks = [take 20 [0..<45], take 20 (drop 20 [0..<45]), drop (20 * 2) [0..<45]]
       \<and> map length chunks = [20, 20, 5]"
    using chunk_partition [of 20 "[0..<45]"] by auto
  have "chunks = [[0..<20], [20..<40], [40..<45]]"
    using c(2) by simp
  moreover have "make_chunks 20 [0..<7] = Inr [[0..<7]]"
    by (simp add: make_chunks_def chunks_from.simps)
  ultimately show ?thesis using c(1) by simp
qed

lemma scan_documents_ok:
  "index + length scanned_list \<le> length chunk \<Longrightarrow>
   \<exists>acc'. scan_documents f g chunk index scanned_list acc = Inr acc' \<and>
     acc_results acc' = acc_results acc @ chunk_results f g (drop index chunk) scanned_list \<and>
     acc_errors acc' = acc_errors acc \<and> acc_scanned acc' = acc_scanned acc"
proof (induction scanned_list arbitrary: index acc)
  case Nil
  show ?case by (simp add: chunk_results_def)
next
  case (Cons scanned rest)
  then have i: "index < length chunk" and r: "Suc index + length rest \<le> length chunk"
    by simp_all
  have d: "drop index chunk = chunk ! index # drop (Suc index) chunk"
    using i by (simp add: Cons_nth_drop_Suc)
  show ?case
  proof (cases "has_policy_breaks (g (f scanned))")
    case True
    then obtain acc1 where a: "scan_document f g chunk index scanned acc = Inr acc1"
      "acc_results acc1 = acc_results acc @
         [\<lparr>content = payload_document (chunk ! index),
           result_filemode = payload_filemode (chunk ! index),
           result_filename = payload_filename (chunk ! index), scan = g (f scanned)\<rparr>]"
      "acc_errors acc1 = acc_errors acc" "acc_scanned acc1 = acc_scanned acc"
      using i by (simp add: scan_document_def Let_def)
    from Cons.IH [OF r, of acc1] a True show ?thesis
      by (auto simp: d chunk_results_def)
  next
    case False
    then have a: "scan_document f g chunk index scanned acc = Inr acc"
      by (simp add: scan_document_def Let_def)
    from Cons.IH [OF r, of acc] a False show ?thesis
      by (auto simp: d chunk_results_def)
  qed
qed

lemma scan_completed_ok:
  assumes "readable chunk outcome"
  shows "\<exists>acc'. scan_completed f g chunk outcome acc = Inr acc' \<and>
     acc_results acc' = acc_results acc @ outcome_results f g chunk outcome \<and>
     acc_errors acc' = acc_errors acc @ outcome_errors chunk outcome \<and>
     acc_scanned acc' = acc_scanned acc @ [chunk]"
proof (cases outcome)
  case (Excepted msg)
  then show ?thesis
    by (simp add: scan_completed_def success_def handle_scan_chunk_error_def
        outcome_results_def outcome_errors_def)
next
  case (Returned r)
  show ?thesis
  proof (cases r)
    case (Detail code dtext)
    with Returned assms show ?thesis
      by (simp add: scan_completed_def success_def handle_scan_chunk_error_def
          outcome_results_def outcome_errors_def readable_def)
  next
    case (MultiScanResult code scanned_list)
    show ?thesis
    proof (cases "code = Some 200")
      case False
      with Returned MultiScanResult show ?thesis
        by (simp add: scan_completed_def success_def handle_scan_chunk_error_def
            outcome_results_def outcome_errors_def)
    next
      case True
      with Returned MultiScanResult assms have "0 + length scanned_list \<le> length chunk"
        by (simp add: readable_def)
      from scan_documents_ok [OF this, of f g "acc\<lparr>acc_scanned := acc_scanned acc @ [chunk]\<rparr>"]
      show ?thesis
        using Returned MultiScanResult True
        by (auto simp: scan_completed_def success_def outcome_results_def outcome_errors_def)
    qed
  qed
qed

lemma scan_futures_ok:
  "\<forall>i \<in> set completion. readable (chunks ! i) (outcome i) \<Longrightarrow>
   \<exists>acc'. scan_futures f g chunks outcome completion acc = Inr acc' \<and>
     acc_results acc' = acc_results acc @
       concat (map (\<lambda>i. outcome_results f g (chunks ! i) (outcome i)) completion) \<and>
     acc_errors acc' = acc_errors acc @
       concat (map (\<lambda>i. outcome_errors (chunks ! i) (outcome i)) completion) \<and>
     acc_scanned acc' = acc_scanned acc @ map (\<lambda>i. chunks ! i) completion"
proof (induction completion arbitrary: acc)
  case Nil
  show ?case by simp
next
  case (Cons i completion)
  then have "readable (chunks ! i) (outcome i)" by simp
  from scan_completed_ok [OF this, of f g acc] obtain acc1 where
    a: "scan_completed f g (chunks ! i) (outcome i) acc = Inr acc1"
      "acc_results acc1 = acc_results acc @ outcome_results f g (chunks ! i) (outcome i)"
      "acc_errors acc1 = acc_errors acc @ outcome_errors (chunks ! i) (outcome i)"
      "acc_scanned acc1 = acc_scanned acc @ [chunks ! i]"
    by blast
  from Cons.prems have "\<forall>i \<in> set completion. readable (chunks ! i) (outcome i)" by simp
  from Cons.IH [OF this, of acc1] a show ?case by auto
qed

lemma Files_scan_ok:
  assumes "0 < limit"
    and "\<forall>i \<in> set completion. readable (chunks_from limit 0 (scannable_list fs) ! i) (outcome i)"
  shows "\<exists>cache'. Files_scan limit f g fs cache outcome completion =
     Inr (\<lparr>results = concat (map (\<lambda>i. outcome_results f g
                (chunks_from limit 0 (scannable_list fs) ! i) (outcome i)) completion),
           errors = concat (map (\<lambda>i. outcome_errors
                (chunks_from limit 0 (scannable_list fs) ! i) (outcome i)) completion)\<rparr>,
          cache', map (\<lambda>i. chunks_from limit 0 (scannable_list fs) ! i) completion)"
proof -
  from scan_futures_ok [OF assms(2), of f g
      "\<lparr>acc_results = [], acc_errors = [], acc_cache = purge cache, acc_scanned = []\<rparr>"]
  obtain acc' where "scan_futures f g (chunks_from limit 0 (scannable_list fs)) outcome completion
      \<lparr>acc_results = [], acc_errors = [], acc_cache = purge cache, acc_scanned = []\<rparr> = Inr acc'"
    "acc_results acc' =
       concat (map (\<lambda>i. outcome_results f g (chunks_from limit 0 (scannable_list fs) ! i) (outcome i)) completion)"
    "acc_errors acc' =
       concat (map (\<lambda>i. outcome_errors (chunks_from limit 0 (scannable_list fs) ! i) (outcome i)) completion)"
    "acc_scanned acc' = map (\<lambda>i. chunks_from limit 0 (scannable_list fs) ! i) completion"
    by auto
  then show ?thesis
    using assms(1) by (simp add: Files_scan_def make_chunks_def)
qed

lemma concat_single:
  "distinct xs \<Longrightarrow> k \<in> set xs \<Longrightarrow> \<forall>i \<in> set xs. i \<noteq> k \<longrightarrow> h i = [] \<Longrightarrow>
   concat (map h xs) = h k"
  by (induction xs) auto

lemma concat_filter_empty:
  "\<forall>i \<in> set xs. \<not> P i \<longrightarrow> h i = [] \<Longrightarrow> concat (map h (filter P xs)) = concat (map h xs)"
  by (induction xs) auto

text \<open>
  C2. When the call of exactly one chunk raises and every other chunk gets a success
  response with at most one scan result for each of its documents, the scan returns: its
  outcome holds the results of every other chunk (in the order in which the calls finish)
  and exactly one Error entry, which lists the (filename, filemode) pairs of the failed
  chunk with the text of the exception. The callback has been called for every chunk.
\<close>

theorem one_failed_chunk:
  assumes "0 < limit"
    and "make_chunks limit (scannable_list fs) = Inr chunks"
    and "distinct completion" and "set completion = {..<length chunks}"
    and "k < length chunks" and "outcome k = Excepted msg"
    and "\<forall>i < length chunks. i \<noteq> k \<longrightarrow>
           outcome i = Returned (MultiScanResult (Some 200) (scanned i)) \<and>
           length (scanned i) \<le> length (chunks ! i)"
  shows "\<exists>cache'. Files_scan limit f g fs cache outcome completion =
     Inr (\<lparr>results = concat (map (\<lambda>i. chunk_results f g (chunks ! i) (scanned i))
                                (filter (\<lambda>i. i \<noteq> k) completion)),
           errors = [\<lparr>files = map (\<lambda>file. (payload_filename file, payload_filemode file))
                                 (chunks ! k),
                      description = msg\<rparr>]\<rparr>,
          cache', map (\<lambda>i. chunks ! i) completion)"
proof -
  have c: "chunks = chunks_from limit 0 (scannable_list fs)"
    using assms(1,2) by (simp add: make_chunks_def)
  have rd: "\<forall>i \<in> set completion. readable (chunks ! i) (outcome i)"
  proof
    fix i assume "i \<in> set completion"
    then have "i < length chunks" using assms(4) by simp
    then show "readable (chunks ! i) (outcome i)"
      using assms(6,7) by (cases "i = k") (simp_all add: readable_def)
  qed
  have k: "k \<in> set completion" using assms(4,5) by simp
  have e: "concat (map (\<lambda>i. outcome_errors (chunks ! i) (outcome i)) completion)
      = outcome_errors (chunks ! k) (outcome k)"
  proof (rule concat_single [OF assms(3) k], intro ballI impI)
    fix i assume "i \<in> set completion" "i \<noteq> k"
    then show "outcome_errors (chunks ! i) (outcome i) = []"
      using assms(4,7) by (simp add: outcome_errors_def)
  qed
  have "concat (map (\<lambda>i. outcome_results f g (chunks ! i) (outcome i)) (filter (\<lambda>i. i \<noteq> k) completion))
      = concat (map (\<lambda>i. outcome_results f g (chunks ! i) (outcome i)) completion)"
    by (rule concat_filter_empty) (simp add: assms(6) outcome_results_def)
  moreover have "map (\<lambda>i. outcome_results f g (chunks ! i) (outcome i)) (filter (\<lambda>i. i \<noteq> k) completion)
      = map (\<lambda>i. chunk_results f g (chunks ! i) (scanned i)) (filter (\<lambda>i. i \<noteq> k) completion)"
    using assms(4,7) by (auto simp: outcome_results_def)
  ultimately have r: "concat (map (\<lambda>i. outcome_results f g (chunks ! i) (outcome i)) completion)
      = concat (map (\<lambda>i. chunk_results f g (chunks ! i) (scanned i)) (filter (\<lambda>i. i \<noteq> k) completion))"
    by simp
  from Files_scan_ok [OF assms(1), of completion fs outcome f g cache] rd
  show ?thesis
    unfolding c [symmetric] e r by (simp add: outcome_errors_def assms(6))
qed

lemma chunk_results_subseq:
  "subseq (map (\<lambda>r. (result_filename r, content r, result_filemode r)) (chunk_results f g chunk scanned_list))
          (map (\<lambda>file. (payload_filename file, payload_document file, payload_filemode file)) chunk)"
proof -
  have "map (\<lambda>r. (result_filename r, content r, result_filemode r)) (chunk_results f g chunk scanned_list)
    = map (\<lambda>file. (payload_filename file, payload_document file, payload_filemode file))
        (map fst (filter (\<lambda>(file, scanned). has_policy_breaks (g (f scanned))) (zip chunk scanned_list)))"
    by (simp add: chunk_results_def case_prod_unfold)
  moreover have "subseq (map fst (filter P (zip chunk scanned_list))) chunk" for P
  proof -
    have "subseq (map fst (filter P (zip chunk scanned_list))) (map fst (zip chunk scanned_list))"
      by (rule subseq_map) simp
    moreover have "map fst (zip chunk scanned_list)
        = take (min (length chunk) (length scanned_list)) chunk"
      by (simp add: map_fst_zip_take)
    moreover have "subseq (take n chunk) chunk" for n
      by (simp add: take_is_prefix prefix_imp_subseq)
    ultimately show ?thesis
      using subseq_order.order_trans by metis
  qed
  ultimately show ?thesis
    by (simp only: subseq_map)
qed

text \<open>
  C8, as amended. When every response can be read, the scan returns and its results are the
  concatenation of the results of the chunks in the order in which the calls finish (not in
  the order of the chunks); the results of one chunk follow the order of its documents.
\<close>

theorem results_follow_completion_order:
  assumes "0 < limit"
    and "make_chunks limit (scannable_list fs) = Inr chunks"
    and "\<forall>i \<in> set completion. readable (chunks ! i) (outcome i)"
  shows "\<exists>res cache' called. Files_scan limit f g fs cache outcome completion = Inr (res, cache', called) \<and>
     results res = concat (map (\<lambda>i. outcome_results f g (chunks ! i) (outcome i)) completion) \<and>
     (\<forall>i \<in> set completion.
        subseq (map (\<lambda>r. (result_filename r, content r, result_filemode r))
                  (outcome_results f g (chunks ! i) (outcome i)))
               (map (\<lambda>file. (payload_filename file, payload_document file, payload_filemode file))
                  (chunks ! i)))"
proof -
  have c: "chunks = chunks_from limit 0 (scannable_list fs)"
    using assms(1,2) by (simp add: make_chunks_def)
  have "subseq (map (\<lambda>r. (result_filename r, content r, result_filemode r))
                  (outcome_results f g chunk out))
               (map (\<lambda>file. (payload_filename file, payload_document file, payload_filemode file))
                  chunk)" for chunk out
    by (auto simp: outcome_results_def chunk_results_subseq split: Outcome.splits Response.splits)
  with Files_scan_ok [OF assms(1), of completion fs outcome f g cache] assms(3)
  show ?thesis unfolding c by auto
qed

lemma dict_set_fresh: "k \<notin> fst ` set d \<Longrightarrow> dict_set k v d = d @ [(k, v)]"
  by (induction d) auto

lemma foldl_dict_fresh:
  "distinct (map fst d @ map filename entries) \<Longrightarrow>
   foldl (\<lambda>d entry. dict_set (filename entry) entry d) d entries
     = d @ map (\<lambda>f. (filename f, f)) entries"
  by (induction entries arbitrary: d) (auto simp: dict_set_fresh)

lemma Files_init_fresh:
  "distinct (map filename entries) \<Longrightarrow> Files_init entries = map (\<lambda>f. (filename f, f)) entries"
  unfolding Files_init_def using foldl_dict_fresh [of "[]" entries] by simp

lemma scannable_some_files: "scannable_list (Files_init (some_files n)) = map nth_payload [0..<n]"
proof -
  have "distinct (map filename (some_files n))"
    by (simp add: some_files_def distinct_map inj_on_def nth_file_def File_init_def nth_name_def)
  then show ?thesis
    by (simp add: Files_init_fresh scannable_list_def dict_values_def some_files_def comp_def
        scan_dict_def nth_file_def File_init_def nth_name_def nth_payload_def)
qed

lemma chunks_21:
  "make_chunks 20 (scannable_list (Files_init (some_files 21)))
     = Inr [map nth_payload [0..<20], [nth_payload 20]]"
proof -
  have "chunks_from 20 40 (map nth_payload [0..<21]) = []"
    by (subst chunks_from.simps) simp
  then have "chunks_from 20 20 (map nth_payload [0..<21]) = [[nth_payload 20]]"
    by (subst chunks_from.simps) (simp add: drop_map)
  then have "chunks_from 20 0 (map nth_payload [0..<21]) = [map nth_payload [0..<20], [nth_payload 20]]"
    by (subst chunks_from.simps) (simp add: take_map del: upt_Suc)
  then show ?thesis
    by (simp add: scannable_some_files make_chunks_def)
qed

lemma clean_documents:
  "scan_documents id id chunk index (replicate n clean) acc = Inr acc"
  by (induction n arbitrary: index) (simp_all add: scan_document_def has_policy_breaks_def clean_def)

lemma first_chunk_scan:
  "scan_completed id id (map nth_payload [0..<20]) (two_chunks_outcome 0) acc
   = Inr (acc\<lparr>acc_scanned := acc_scanned acc @ [map nth_payload [0..<20]],
              acc_cache := add_found_policy_break leak (nth_name 0) (acc_cache acc),
              acc_results := acc_results acc @ [hit_result 0]\<rparr>)"
  by (simp add: scan_completed_def two_chunks_outcome_def success_def scan_document_def
      has_policy_breaks_def hit_def clean_documents hit_result_def nth_payload_def
      del: upt_Suc)

lemma second_chunk_scan:
  "scan_completed id id [nth_payload 20] (two_chunks_outcome (Suc 0)) acc
   = Inr (acc\<lparr>acc_scanned := acc_scanned acc @ [[nth_payload 20]],
              acc_cache := add_found_policy_break leak (nth_name 20) (acc_cache acc),
              acc_results := acc_results acc @ [hit_result 20]\<rparr>)"
  by (simp add: scan_completed_def two_chunks_outcome_def success_def scan_document_def
      has_policy_breaks_def hit_def hit_result_def nth_payload_def)

text \<open>
  C8 as stated fails: 21 files make two chunks for a limit of 20; when the call of the second
  chunk finishes first, the result of the last file comes before the result of the first.
\<close>

theorem results_order_counterexample:
  "Files_scan 20 id id (Files_init (some_files 21)) empty_cache two_chunks_outcome [1, 0] =
     Inr (\<lparr>results = [hit_result 20, hit_result 0], errors = []\<rparr>,
          \<lparr>found = [(leak, nth_name 20), (leak, nth_name 0)],
            persisted = [(leak, nth_name 20), (leak, nth_name 0)]\<rparr>,
          [[nth_payload 20], map nth_payload [0..<20]]) \<and>
   Files_scan 20 id id (Files_init (some_files 21)) empty_cache two_chunks_outcome [0, 1] =
     Inr (\<lparr>results = [hit_result 0, hit_result 20], errors = []\<rparr>,
          \<lparr>found = [(leak, nth_name 0), (leak, nth_name 20)],
            persisted = [(leak, nth_name 0), (leak, nth_name 20)]\<rparr>,
          [map nth_payload [0..<20], [nth_payload 20]]) \<and>
   [hit_result 20, hit_result 0] \<noteq> [hit_result 0, hit_result 20]"
  by (simp add: Files_scan_def chunks_21 first_chunk_scan second_chunk_scan purge_def save_def
      add_found_policy_break_def empty_cache_def hit_result_def nth_name_def del: upt_Suc)

lemma clean_filtered:
  "filter (\<lambda>(file, scanned). has_policy_breaks (id (id scanned))) (zip chunk (replicate n clean)) = []"
  by (auto simp: filter_empty_conv has_policy_breaks_def clean_def dest!: set_zip_rightD)

lemma chunk_results_hit:
  assumes "a < b"
  shows "chunk_results id id (map nth_payload [a..<b]) (hit # replicate n clean) = [hit_result a]"
proof -
  have "[a..<b] = a # [Suc a..<b]"
    using assms by (simp add: upt_conv_Cons)
  then show ?thesis
    using clean_filtered [of "map nth_payload [Suc a..<b]" n]
    by (simp add: chunk_results_def has_policy_breaks_def hit_def hit_result_def nth_payload_def)
qed

lemma chunks_45:
  "make_chunks 20 (scannable_list (Files_init (some_files 45)))
     = Inr [map nth_payload [0..<20], map nth_payload [20..<40], map nth_payload [40..<45]]"
  using chunks_from_three [of 20 "map nth_payload [0..<45]"]
  by (simp add: scannable_some_files make_chunks_def take_map drop_map del: upt_Suc)

theorem one_failed_chunk_witness:
  "make_chunks 20 (scannable_list (Files_init (some_files 45)))
     = Inr [map nth_payload [0..<20], map nth_payload [20..<40], map nth_payload [40..<45]] \<and>
   three_chunks_outcome 1 = Excepted (py ''Connection reset by peer'') \<and>
   three_chunks_outcome 0 = Returned (MultiScanResult (Some 200) (hit # replicate 19 clean)) \<and>
   three_chunks_outcome 2 = Returned (MultiScanResult (Some 200) (hit # replicate 4 clean)) \<and>
   map_sum id fst
     (Files_scan 20 id id (Files_init (some_files 45)) empty_cache three_chunks_outcome [2, 0, 1])
     = Inr \<lparr>results = [hit_result 40, hit_result 0],
            errors = [\<lparr>files = map (\<lambda>i. (nth_name i, FILE)) [20..<40],
                       description = py ''Connection reset by peer''\<rparr>]\<rparr>"
proof -
  let ?chunks = "[map nth_payload [0..<20], map nth_payload [20..<40], map nth_payload [40..<45]]"
  let ?scanned = "\<lambda>i::nat. hit # replicate (if i = 0 then 19 else 4) clean"
  have h7: "\<forall>i < length ?chunks. i \<noteq> 1 \<longrightarrow>
      three_chunks_outcome i = Returned (MultiScanResult (Some 200) (?scanned i)) \<and>
      length (?scanned i) \<le> length (?chunks ! i)"
    by (auto simp: three_chunks_outcome_def less_Suc_eq)
  have h4: "set [2, 0, 1::nat] = {..<length ?chunks}"
    by (auto simp: less_Suc_eq)
  obtain cache' where "Files_scan 20 id id (Files_init (some_files 45)) empty_cache
      three_chunks_outcome [2, 0, 1] =
     Inr (\<lparr>results = concat (map (\<lambda>i. chunk_results id id (?chunks ! i) (?scanned i))
                                (filter (\<lambda>i. i \<noteq> 1) [2, 0, 1])),
           errors = [\<lparr>files = map (\<lambda>file. (payload_filename file, payload_filemode file))
                                 (?chunks ! 1),
                      description = py ''Connection reset by peer''\<rparr>]\<rparr>,
          cache', map (\<lambda>i. ?chunks ! i) [2, 0, 1])"
    using one_failed_chunk [of 20 "Files_init (some_files 45)" ?chunks "[2, 0, 1]" 1
        three_chunks_outcome "py ''Connection reset by peer''" ?scanned id id empty_cache,
        OF _ chunks_45 _ h4 _ _ h7]
    by (auto simp: three_chunks_outcome_def)
  moreover have "concat (map (\<lambda>i. chunk_results id id (?chunks ! i) (?scanned i))
      (filter (\<lambda>i. i \<noteq> 1) [2, 0, 1])) = [hit_result 40, hit_result 0]"
    by (simp add: chunk_results_hit del: upt_Suc upt_rec_numeral)
  moreover have "map (\<lambda>file. (payload_filename file, payload_filemode file)) (?chunks ! 1)
      = map (\<lambda>i. (nth_name i, FILE)) [20..<40]"
    by (simp add: nth_payload_def comp_def del: upt_Suc upt_rec_numeral)
  ultimately show ?thesis
    by (simp add: chunks_45 three_chunks_outcome_def del: upt_Suc upt_rec_numeral)
qed

theorem results_follow_completion_order_witness:
  "make_chunks 20 (scannable_list (Files_init (some_files 21)))
     = Inr [map nth_payload [0..<20], [nth_payload 20]] \<and>
   readable [nth_payload 20] (two_chunks_outcome 1) \<and>
   readable (map nth_payload [0..<20]) (two_chunks_outcome 0) \<and>
   map_sum id (results \<circ> fst)
     (Files_scan 20 id id (Files_init (some_files 21)) empty_cache two_chunks_outcome [1, 0])
     = Inr [hit_result 20, hit_result 0]"
proof -
  let ?chunks = "[map nth_payload [0..<20], [nth_payload 20]]"
  have r1: "readable [nth_payload 20] (two_chunks_outcome 1)"
    by (simp add: readable_def two_chunks_outcome_def)
  have r0: "readable (map nth_payload [0..<20]) (two_chunks_outcome 0)"
    by (simp add: readable_def two_chunks_outcome_def)
  have rd: "\<forall>i \<in> set [1, 0]. readable (?chunks ! i) (two_chunks_outcome i)"
    using r0 r1 by simp
  have one: "[nth_payload 20] = map nth_payload [20..<21]"
    by (simp add: upt_conv_Cons)
  obtain res cache' called where
    "Files_scan 20 id id (Files_init (some_files 21)) empty_cache two_chunks_outcome [1, 0]
       = Inr (res, cache', called)"
    "results res = concat (map (\<lambda>i. outcome_results id id (?chunks ! i) (two_chunks_outcome i)) [1, 0])"
    using results_follow_completion_order [of 20 "Files_init (some_files 21)" ?chunks "[1, 0]"
        two_chunks_outcome id id empty_cache, OF _ chunks_21 rd]
    by auto
  moreover have "outcome_results id id (map nth_payload [0..<20]) (two_chunks_outcome 0) = [hit_result 0]"
    by (simp add: outcome_results_def two_chunks_outcome_def chunk_results_hit del: upt_Suc)
  moreover have "outcome_results id id [nth_payload 20] (two_chunks_outcome 1) = [hit_result 20]"
    unfolding one using chunk_results_hit [of 20 21 0]
    by (simp add: outcome_results_def two_chunks_outcome_def del: upt_Suc)
  ultimately show ?thesis
    using r0 r1 chunks_21 by simp
qed

lemma str_index_prefix:
  "str_index sub s = Some i \<Longrightarrow> prefix sub (drop i s)"
proof (induction s arbitrary: i)
  case Nil
  then show ?case by (simp split: if_splits)
next
  case (Cons c cs)
  show ?case
  proof (cases "prefix sub (c # cs)")
    case True
    with Cons.prems show ?thesis by simp
  next
    case False
    with Cons.prems obtain j where "str_index sub cs = Some j" "i = Suc j"
      by auto
    with Cons.IH show ?thesis by simp
  qed
qed

text \<open>The text from the marker on starts with \<open>@@\<close>, so the test \<open>if document\<close> of the
  source never fails.\<close>

lemma marker_document:
  assumes "str_index (LF # py ''@@'') diff = Some i"
  shows "prefix (py ''@@'') (drop (i + 1) diff)"
proof -
  from str_index_prefix [OF assms] obtain zs where "drop i diff = (LF # py ''@@'') @ zs"
    by (auto simp: prefix_def)
  then have "drop 1 (drop i diff) = py ''@@'' @ zs" by simp
  then show ?thesis by (simp add: add.commute)
qed

lemma step_emits:
  assumes "get_files_step m excl name mode diff = Inr (Some f)"
  shows "\<exists>i n. str_index (LF # py ''@@'') diff = Some i \<and> document f = drop (i + 1) diff \<and>
           filename f = name \<and> filemode f = mode \<and>
           document f \<noteq> [] \<and> utf8_len (document f) = Inr n \<and> real n \<le> real m * 0.90"
  using assms
  by (auto simp: get_files_step_def Let_def CommitFile_init_def File_init_def
      split: sum.splits bool.splits option.splits if_splits)

lemma loop_emits:
  "f \<in> set (fst (get_files_loop m excl lines ds)) \<Longrightarrow>
   document f \<noteq> [] \<and> (\<exists>n. utf8_len (document f) = Inr n \<and> real n \<le> real m * 0.90)"
proof (induction m excl lines ds rule: get_files_loop.induct)
  case (1 m excl ds)
  then show ?case by simp
next
  case (2 m excl line lines ds)
  show ?case
  proof (cases "parse_patch_header_line (COLON # line)")
    case (Inl e)
    with 2(3) show ?thesis by simp
  next
    case (Inr p)
    obtain name mode where p: "p = (name, mode)" by (cases p)
    show ?thesis
    proof (cases ds)
      case Nil
      with 2(3) Inr p show ?thesis by simp
    next
      case (Cons d ds')
      show ?thesis
      proof (cases "get_files_step m excl name mode d")
        case (Inl e)
        with 2(3) Inr p Cons show ?thesis by simp
      next
        case step: (Inr r)
        show ?thesis
        proof (cases r)
          case None
          with 2(1) [OF Inr p [symmetric] Cons step] 2(3) Inr p Cons step show ?thesis
            by simp
        next
          case (Some g)
          from 2(3) Inr p Cons step Some
          have "f = g \<or> f \<in> set (fst (get_files_loop m excl lines ds'))"
            by (auto split: prod.splits)
          then show ?thesis
          proof
            assume "f = g"
            with step_emits [of m excl name mode d g] step Some show ?thesis by auto
          next
            assume "f \<in> set (fst (get_files_loop m excl lines ds'))"
            with 2(2) [OF Inr p [symmetric] Cons step Some] show ?thesis by simp
          qed
        qed
      qed
    qed
  qed
qed

lemma get_files_emits:
  assumes "f \<in> set (fst (get_files m excl sha patch))"
  shows "document f \<noteq> [] \<and> (\<exists>n. utf8_len (document f) = Inr n \<and> real n \<le> real m * 0.90)"
proof -
  have "fst (get_files m excl sha patch) = fst (get_files_try m excl patch)"
    by (simp add: get_files_def split: prod.splits)
  moreover have "fst (get_files_try m excl patch) = [] \<or>
      (\<exists>lines ds. fst (get_files_try m excl patch) = fst (get_files_loop m excl lines ds))"
    by (auto simp: get_files_try_def split: sum.splits option.splits)
  ultimately obtain lines ds where "f \<in> set (fst (get_files_loop m excl lines ds))"
    using assms by auto
  then show ?thesis by (rule loop_emits)
qed

text \<open>
  C6. For one file of a commit patch: when its diff has no hunk marker after a newline, no
  unit is yielded; when the UTF-8 length of the text from the first such marker on exceeds
  90% of the maximum size, no unit is yielded; a unit that is yielded holds exactly that
  text, which is not empty. Every file yielded by \<open>get_files\<close> has a non-empty document
  whose UTF-8 length is at most 90% of the maximum size.
\<close>

theorem oversized_or_empty_not_emitted:
  "(str_index (LF # py ''@@'') diff = None \<longrightarrow>
      get_files_step MAX_FILE_SIZE is_filepath_excluded name mode diff \<noteq> Inr (Some f)) \<and>
   (str_index (LF # py ''@@'') diff = Some i \<and> utf8_len (drop (i + 1) diff) = Inr n \<and>
    real n > real MAX_FILE_SIZE * 0.90 \<longrightarrow>
      get_files_step MAX_FILE_SIZE is_filepath_excluded name mode diff \<noteq> Inr (Some f)) \<and>
   (get_files_step MAX_FILE_SIZE is_filepath_excluded name mode diff = Inr (Some f) \<longrightarrow>
      (\<exists>j. str_index (LF # py ''@@'') diff = Some j \<and> document f = drop (j + 1) diff) \<and>
      document f \<noteq> []) \<and>
   (f \<in> set (fst (get_files MAX_FILE_SIZE is_filepath_excluded sha patch)) \<longrightarrow>
      document f \<noteq> [] \<and>
      (\<exists>k. utf8_len (document f) = Inr k \<and> real k \<le> real MAX_FILE_SIZE * 0.90))"
proof (intro conjI impI)
  assume "str_index (LF # py ''@@'') diff = None"
  then show "get_files_step MAX_FILE_SIZE is_filepath_excluded name mode diff \<noteq> Inr (Some f)"
    using step_emits [of MAX_FILE_SIZE is_filepath_excluded name mode diff f] by auto
next
  assume "str_index (LF # py ''@@'') diff = Some i \<and> utf8_len (drop (i + 1) diff) = Inr n \<and>
    real n > real MAX_FILE_SIZE * 0.90"
  then show "get_files_step MAX_FILE_SIZE is_filepath_excluded name mode diff \<noteq> Inr (Some f)"
    using step_emits [of MAX_FILE_SIZE is_filepath_excluded name mode diff f] by auto
next
  assume a: "get_files_step MAX_FILE_SIZE is_filepath_excluded name mode diff = Inr (Some f)"
  from step_emits [OF a]
  show "\<exists>j. str_index (LF # py ''@@'') diff = Some j \<and> document f = drop (j + 1) diff"
    by blast
  from step_emits [OF a] show "document f \<noteq> []" by blast
next
  assume a: "f \<in> set (fst (get_files MAX_FILE_SIZE is_filepath_excluded sha patch))"
  from get_files_emits [OF a] show "document f \<noteq> []" by blast
  from get_files_emits [OF a]
  show "\<exists>k. utf8_len (document f) = Inr k \<and> real k \<le> real MAX_FILE_SIZE * 0.90" by blast
qed

lemma loop_append:
  "length before \<le> length ds \<Longrightarrow>
   get_files_loop m excl before (take (length before) ds) = (fs, None) \<Longrightarrow>
   get_files_loop m excl (before @ later) ds =
     (fs @ fst (get_files_loop m excl later (drop (length before) ds)),
      snd (get_files_loop m excl later (drop (length before) ds)))"
proof (induction before arbitrary: ds fs)
  case Nil
  then show ?case by simp
next
  case (Cons line before)
  then obtain d ds' where ds: "ds = d # ds'" by (cases ds) auto
  with Cons.prems have len: "length before \<le> length ds'" by simp
  show ?case
  proof (cases "parse_patch_header_line (COLON # line)")
    case (Inl e)
    with Cons.prems show ?thesis by simp
  next
    case (Inr p)
    obtain name mode where p: "p = (name, mode)" by (cases p)
    show ?thesis
    proof (cases "get_files_step m excl name mode d")
      case (Inl e)
      with Cons.prems Inr p ds show ?thesis by simp
    next
      case step: (Inr r)
      show ?thesis
      proof (cases r)
        case None
        with Cons.prems Inr p ds step
        have "get_files_loop m excl before (take (length before) ds') = (fs, None)" by simp
        from Cons.IH [OF len this] Inr p ds step None show ?thesis by simp
      next
        case (Some g)
        with Cons.prems Inr p ds step obtain gs where
          gs: "get_files_loop m excl before (take (length before) ds') = (gs, None)" "fs = g # gs"
          by (auto split: prod.splits)
        from Cons.IH [OF len gs(1)] Inr p ds step Some gs(2) show ?thesis by simp
      qed
    qed
  qed
qed

text \<open>
  C4. A header record with a prefix and a name whose status holds none of M, C, A, T, R, D
  makes the parser raise a ValueError whose message ends with \<open>unknown status\<close> and the
  status. Whatever \<open>get_files\<close> raises is a PatchParseError built from the sha of the commit
  and the exception of the body, and then \<open>Commit.files\<close> raises it and stores no file.
  When the record that fails to parse comes after records that were handled without a
  raise, the generator has yielded the files of those records and yields nothing after
  the failure.
\<close>

theorem unknown_status_is_parse_failure:
  "(split_char NUL (rstrip [NUL] line) = pfx # name # rest \<and>
    set (status_of_prefix pfx) \<inter> set (py ''MCATRD'') = {} \<longrightarrow>
      parse_patch_header_line line
        = Inl (ValueError (unknown_status_message line (status_of_prefix pfx))) \<and>
      suffix (py ''unknown status '' @ status_of_prefix pfx)
        (unknown_status_message line (status_of_prefix pfx))) \<and>
   (snd (get_files MAX_FILE_SIZE is_filepath_excluded sha patch) = Some raised \<longrightarrow>
      (\<exists>e. raised = PatchParseError sha e \<and>
           snd (get_files_try MAX_FILE_SIZE is_filepath_excluded patch) = Some e) \<and>
      Commit_files MAX_FILE_SIZE is_filepath_excluded sha patch = Inl raised) \<and>
   (split_once (NUL # py ''diff '') patch_text = Some (header, body) \<and>
    tl (header_split header) = before @ record # after \<and>
    length before \<le> length (diff_split body) \<and>
    get_files_loop MAX_FILE_SIZE is_filepath_excluded before
      (take (length before) (diff_split body)) = (fs, None) \<and>
    parse_patch_header_line (COLON # record) = Inl e \<longrightarrow>
      get_files MAX_FILE_SIZE is_filepath_excluded sha (Inr patch_text)
        = (fs, Some (PatchParseError sha e)))"
proof (intro conjI impI)
  assume a: "split_char NUL (rstrip [NUL] line) = pfx # name # rest \<and>
    set (status_of_prefix pfx) \<inter> set (py ''MCATRD'') = {}"
  then show "parse_patch_header_line line
      = Inl (ValueError (unknown_status_message line (status_of_prefix pfx)))"
    by (auto simp: parse_patch_header_line_def Let_def py_def)
  show "suffix (py ''unknown status '' @ status_of_prefix pfx)
      (unknown_status_message line (status_of_prefix pfx))"
    by (simp add: unknown_status_message_def suffix_def py_def)
next
  assume a: "snd (get_files MAX_FILE_SIZE is_filepath_excluded sha patch) = Some raised"
  then show "\<exists>e. raised = PatchParseError sha e \<and>
      snd (get_files_try MAX_FILE_SIZE is_filepath_excluded patch) = Some e"
    by (auto simp: get_files_def split: prod.splits)
  from a show "Commit_files MAX_FILE_SIZE is_filepath_excluded sha patch = Inl raised"
    by (auto simp: Commit_files_def split: prod.splits option.splits)
next
  assume a: "split_once (NUL # py ''diff '') patch_text = Some (header, body) \<and>
    tl (header_split header) = before @ record # after \<and>
    length before \<le> length (diff_split body) \<and>
    get_files_loop MAX_FILE_SIZE is_filepath_excluded before
      (take (length before) (diff_split body)) = (fs, None) \<and>
    parse_patch_header_line (COLON # record) = Inl e"
  then have "get_files_loop MAX_FILE_SIZE is_filepath_excluded (before @ record # after)
      (diff_split body) = (fs, Some e)"
    using loop_append [of before "diff_split body" MAX_FILE_SIZE is_filepath_excluded fs
        "record # after"]
    by simp
  with a show "get_files MAX_FILE_SIZE is_filepath_excluded sha (Inr patch_text)
      = (fs, Some (PatchParseError sha e))"
    by (simp add: get_files_def get_files_try_def)
qed

lemmas patch_simps = str_simps get_files_def get_files_try_def diff_split_def
  parse_patch_header_line_def status_of_prefix_def get_files_step_def never_excluded_def
  utf8_len_def utf8_width_def is_surrogate_def CommitFile_init_def File_init_def Let_def
  unknown_status_message_def

lemma good_patch_files:
  "get_files 1048576 never_excluded (Some (py ''9f2c'')) (Inr good_patch) = ([small_file], None)"
  by (simp add: good_patch_def small_file_def patch_simps)

lemmas bad_patch_simps = bad_patch_def bad_header_def bad_body_def good_record_def bad_record_def

theorem oversized_or_empty_not_emitted_witness:
  "str_index (LF # py ''@@'') mode_only_diff = None \<and>
   get_files_step 1048576 never_excluded (py ''g.sh'') MODIFY mode_only_diff \<noteq> Inr (Some small_file) \<and>
   str_index (LF # py ''@@'') small_diff = Some 19 \<and>
   utf8_len (drop 20 small_diff) = Inr 18 \<and>
   real 18 > real 10 * 0.90 \<and>
   get_files_step 10 never_excluded (py ''f.py'') MODIFY small_diff \<noteq> Inr (Some small_file) \<and>
   get_files_step 1048576 never_excluded (py ''f.py'') MODIFY small_diff = Inr (Some small_file) \<and>
   document small_file = drop 20 small_diff \<and>
   document small_file \<noteq> [] \<and>
   small_file \<in> set (fst (get_files 1048576 never_excluded (Some (py ''9f2c'')) (Inr good_patch))) \<and>
   utf8_len (document small_file) = Inr 18 \<and>
   real 18 \<le> real 1048576 * 0.90"
proof -
  have a: "str_index (LF # py ''@@'') mode_only_diff = None"
    by (simp add: mode_only_diff_def str_simps)
  have b: "str_index (LF # py ''@@'') small_diff = Some 19"
    by (simp add: small_diff_def str_simps)
  have c: "utf8_len (drop 20 small_diff) = Inr 18"
    by (simp add: small_diff_def patch_simps)
  have d: "real 18 > real 10 * 0.90" by simp
  have e: "get_files_step 1048576 never_excluded (py ''f.py'') MODIFY small_diff = Inr (Some small_file)"
    by (simp add: small_diff_def small_file_def patch_simps)
  have g: "small_file \<in> set (fst (get_files 1048576 never_excluded (Some (py ''9f2c'')) (Inr good_patch)))"
    by (simp add: good_patch_files)
  have "get_files_step 1048576 never_excluded (py ''g.sh'') MODIFY mode_only_diff \<noteq> Inr (Some small_file)"
    using oversized_or_empty_not_emitted [of mode_only_diff 1048576 never_excluded "py ''g.sh''" MODIFY
        small_file] a by simp
  moreover have "get_files_step 10 never_excluded (py ''f.py'') MODIFY small_diff \<noteq> Inr (Some small_file)"
    using oversized_or_empty_not_emitted [of small_diff 10 never_excluded "py ''f.py''" MODIFY
        small_file 19 18] b c d by simp
  moreover have "document small_file \<noteq> [] \<and> document small_file = drop 20 small_diff \<and>
      utf8_len (document small_file) = Inr 18"
  proof -
    note inst = oversized_or_empty_not_emitted [of small_diff 1048576 never_excluded "py ''f.py''"
        MODIFY small_file 19 18 "Some (py ''9f2c'')" "Inr good_patch"]
    from inst e obtain j where j: "str_index (LF # py ''@@'') small_diff = Some j"
      "document small_file = drop (j + 1) small_diff" and ne: "document small_file \<noteq> []"
      by blast
    from j b have "document small_file = drop 20 small_diff" by simp
    with c ne show ?thesis by simp
  qed
  moreover have h: "real 18 \<le> real 1048576 * 0.90" by simp
  ultimately show ?thesis
    using a b c d e g by blast
qed

theorem unknown_status_is_parse_failure_witness:
  "split_char NUL (rstrip [NUL] (COLON # bad_record))
     = [py '':100644 100644 ccc ddd X'', py ''g.py''] \<and>
   status_of_prefix (py '':100644 100644 ccc ddd X'') = py ''X'' \<and>
   set (py ''X'') \<inter> set (py ''MCATRD'') = {} \<and>
   parse_patch_header_line (COLON # bad_record)
     = Inl (ValueError (unknown_status_message (COLON # bad_record) (py ''X''))) \<and>
   split_once (NUL # py ''diff '') bad_patch = Some (bad_header, bad_body) \<and>
   tl (header_split bad_header) = [good_record] @ bad_record # [] \<and>
   length [good_record] \<le> length (diff_split bad_body) \<and>
   get_files_loop 1048576 never_excluded [good_record]
     (take (length [good_record]) (diff_split bad_body)) = ([small_file], None) \<and>
   get_files 1048576 never_excluded (Some (py ''9f2c'')) (Inr bad_patch)
     = ([small_file],
        Some (PatchParseError (Some (py ''9f2c''))
               (ValueError (unknown_status_message (COLON # bad_record) (py ''X''))))) \<and>
   Commit_files 1048576 never_excluded (Some (py ''9f2c'')) (Inr bad_patch)
     = Inl (PatchParseError (Some (py ''9f2c''))
             (ValueError (unknown_status_message (COLON # bad_record) (py ''X''))))"
proof -
  let ?e = "ValueError (unknown_status_message (COLON # bad_record) (py ''X''))"
  have a: "split_char NUL (rstrip [NUL] (COLON # bad_record))
     = [py '':100644 100644 ccc ddd X'', py ''g.py'']"
    by (simp add: bad_record_def str_simps)
  have b: "status_of_prefix (py '':100644 100644 ccc ddd X'') = py ''X''"
    by (simp add: status_of_prefix_def str_simps)
  have c: "set (py ''X'') \<inter> set (py ''MCATRD'') = {}"
    by (simp add: py_def)
  have d: "split_once (NUL # py ''diff '') bad_patch = Some (bad_header, bad_body)"
    by (simp add: bad_patch_simps str_simps)
  have e: "tl (header_split bad_header) = [good_record] @ bad_record # []"
    by (simp add: bad_patch_simps str_simps)
  have f: "length [good_record] \<le> length (diff_split bad_body)"
    by (simp add: bad_patch_simps str_simps diff_split_def)
  have g: "get_files_loop 1048576 never_excluded [good_record]
     (take (length [good_record]) (diff_split bad_body)) = ([small_file], None)"
    by (simp add: bad_patch_simps small_file_def patch_simps)
  note inst = unknown_status_is_parse_failure [of "COLON # bad_record"
      "py '':100644 100644 ccc ddd X''" "py ''g.py''" "[]" 1048576 never_excluded
      "Some (py ''9f2c'')" "Inr bad_patch" "PatchParseError (Some (py ''9f2c'')) ?e"
      bad_patch bad_header bad_body "[good_record]" bad_record "[]" "[small_file]" ?e]
  have p: "parse_patch_header_line (COLON # bad_record) = Inl ?e"
    using inst a b c by simp
  have q: "get_files 1048576 never_excluded (Some (py ''9f2c'')) (Inr bad_patch)
     = ([small_file], Some (PatchParseError (Some (py ''9f2c'')) ?e))"
    using inst d e f g p by simp
  have "Commit_files 1048576 never_excluded (Some (py ''9f2c'')) (Inr bad_patch)
     = Inl (PatchParseError (Some (py ''9f2c'')) ?e)"
    using inst q by simp
  then show ?thesis
    using a b c d e f g p q by simp
qed

lemma foldl_snoc: "foldl (\<lambda>acc x. acc @ [x]) acc xs = acc @ xs"
  by (induction xs arbitrary: acc) simp_all

lemma sub_scan_results_all:
  "\<forall>s \<in> set sub. sc_results s \<noteq> None \<Longrightarrow>
   sub_scan_results sub = (concat (map own_results sub), None)"
  by (induction sub) (auto simp: own_results_def)

lemma sub_scan_results_some_none:
  "\<exists>s \<in> set sub. sc_results s = None \<Longrightarrow>
   sub_scan_results sub =
     (concat (map own_results (takeWhile (\<lambda>s. sc_results s \<noteq> None) sub)), Some AttributeError)"
proof (induction sub)
  case Nil
  then show ?case by simp
next
  case (Cons a sub)
  show ?case
  proof (cases "sc_results a")
    case None
    then show ?thesis by simp
  next
    case (Some r)
    with Cons.prems have "\<exists>s \<in> set sub. sc_results s = None" by auto
    from Cons.IH [OF this] Some show ?thesis by (simp add: own_results_def)
  qed
qed

text \<open>
  C10. For a collection whose list of sub-scans is not empty: when every sub-scan has
  results, \<open>get_all_results\<close> yields the collection's own results and then those of every
  sub-scan, in order; when some sub-scan has \<open>results = None\<close>, it yields the
  results up to the first such sub-scan and then raises AttributeError, while
  \<open>scans_with_results\<close> leaves such sub-scans out.
\<close>

theorem get_all_results_needs_results:
  assumes "sc_scans c = Some sub" and "sub \<noteq> []"
  shows "((\<forall>s \<in> set sub. sc_results s \<noteq> None) \<longrightarrow>
            get_all_results c = (own_results c @ concat (map own_results sub), None)) \<and>
         ((\<exists>s \<in> set sub. sc_results s = None) \<longrightarrow>
            get_all_results c =
              (own_results c @
                 concat (map own_results (takeWhile (\<lambda>s. sc_results s \<noteq> None) sub)),
               Some AttributeError)) \<and>
         scans_with_results c = filter (\<lambda>s. sc_results s \<noteq> None) sub"
  using assms sub_scan_results_all [of sub] sub_scan_results_some_none [of sub]
  by (auto simp: get_all_results_def scans_with_results_def own_results_def Let_def)

text \<open>
  C9. When the remote commit contains \<open>~1\<close> or is the empty sha, the pre-push command scans
  without a reference; the baseline is then empty and the dictionary of the diff scan has
  every current finding under \<open>added_vulns\<close> and nothing under \<open>persisting_vulns\<close> and
  \<open>removed_vulns\<close>. For every diff scan with a result the three lists of the dictionary are
  the \<open>new\<close>, \<open>unchanged\<close> and \<open>deleted\<close> lists of the result; without a result they
  are empty.
\<close>

theorem first_push_all_new:
  "(str_contains (py ''~1'') remote_commit \<or> remote_commit = EMPTY_SHA \<longrightarrow>
      previous_ref EMPTY_SHA remote_commit = None \<and>
      create_diff_scan_dict (scan_pre_push_cmd EMPTY_SHA findings_at current remote_commit)
        = \<lparr>added_vulns = current, persisting_vulns = [], removed_vulns = []\<rparr>) \<and>
   (result scan_collection = Some r \<longrightarrow>
      create_diff_scan_dict scan_collection
        = \<lparr>added_vulns = new (entities_with_incidents r),
           persisting_vulns = unchanged (entities_with_incidents r),
           removed_vulns = deleted (entities_with_incidents r)\<rparr>) \<and>
   (result scan_collection = None \<longrightarrow>
      create_diff_scan_dict scan_collection
        = \<lparr>added_vulns = [], persisting_vulns = [], removed_vulns = []\<rparr>)"
  by (simp add: create_diff_scan_dict_def scan_pre_push_cmd_def iac_scan_diff_def
      previous_ref_def reconcile_def foldl_snoc)

theorem get_all_results_needs_results_witness:
  "sc_scans (commit_range [scanned_ok 1, not_scanned, scanned_ok 2])
     = Some [scanned_ok 1, not_scanned, scanned_ok 2] \<and>
   get_all_results (commit_range [scanned_ok 1, not_scanned, scanned_ok 2])
     = ([hit_result 0, hit_result 1], Some AttributeError) \<and>
   scans_with_results (commit_range [scanned_ok 1, not_scanned, scanned_ok 2])
     = [scanned_ok 1, scanned_ok 2] \<and>
   get_all_results (commit_range [scanned_ok 1, scanned_ok 2])
     = ([hit_result 0, hit_result 1, hit_result 2], None)"
proof -
  have n: "sc_results not_scanned = None"
    "sc_results (scanned_ok i) = Some \<lparr>results = [hit_result i], errors = []\<rparr>" for i
    by (simp_all add: not_scanned_def scanned_ok_def sub_scan_def)
  have o: "own_results (scanned_ok i) = [hit_result i]"
    "own_results (commit_range sub) = [hit_result 0]" for i sub
    by (simp_all add: own_results_def scanned_ok_def sub_scan_def commit_range_def)
  have s: "sc_scans (commit_range sub) = Some sub" for sub
    by (simp add: commit_range_def)
  from get_all_results_needs_results
    [of "commit_range [scanned_ok 1, not_scanned, scanned_ok 2]"
      "[scanned_ok 1, not_scanned, scanned_ok 2]", OF s]
  have "get_all_results (commit_range [scanned_ok 1, not_scanned, scanned_ok 2])
      = ([hit_result 0, hit_result 1], Some AttributeError) \<and>
    scans_with_results (commit_range [scanned_ok 1, not_scanned, scanned_ok 2])
      = [scanned_ok 1, scanned_ok 2]"
    by (simp add: n o)
  moreover from get_all_results_needs_results
    [of "commit_range [scanned_ok 1, scanned_ok 2]" "[scanned_ok 1, scanned_ok 2]", OF s]
  have "get_all_results (commit_range [scanned_ok 1, scanned_ok 2])
      = ([hit_result 0, hit_result 1, hit_result 2], None)"
    by (simp add: n o)
  ultimately show ?thesis by (simp add: s)
qed

theorem first_push_all_new_witness:
  "previous_ref zero_sha zero_sha = None \<and>
   create_diff_scan_dict (scan_pre_push_cmd zero_sha findings_before [py ''B'', py ''C''] zero_sha)
     = \<lparr>added_vulns = [py ''B'', py ''C''], persisting_vulns = [], removed_vulns = []\<rparr> \<and>
   str_contains (py ''~1'') (py ''topic~1'') \<and>
   create_diff_scan_dict
     (scan_pre_push_cmd zero_sha findings_before [py ''B'', py ''C''] (py ''topic~1''))
     = \<lparr>added_vulns = [py ''B'', py ''C''], persisting_vulns = [], removed_vulns = []\<rparr> \<and>
   previous_ref zero_sha (py ''9f2c'') = Some (py ''9f2c'') \<and>
   create_diff_scan_dict
     (scan_pre_push_cmd zero_sha findings_before [py ''B'', py ''C''] (py ''9f2c''))
     = \<lparr>added_vulns = [py ''C''], persisting_vulns = [py ''B''], removed_vulns = [py ''A'']\<rparr>"
proof -
  have t: "str_contains (py ''~1'') (py ''topic~1'')"
    by (simp add: str_contains_def py_def)
  have "length (py ''9f2c'') \<noteq> length zero_sha"
    by (simp add: py_def zero_sha_def)
  then have "py ''9f2c'' \<noteq> zero_sha" by auto
  then have p: "previous_ref zero_sha (py ''9f2c'') = Some (py ''9f2c'')"
    by (simp add: previous_ref_def str_contains_def) (simp add: py_def)
  have r: "result (scan_pre_push_cmd zero_sha findings_before [py ''B'', py ''C''] (py ''9f2c''))
      = Some \<lparr>entities_with_incidents =
          \<lparr>new = [py ''C''], unchanged = [py ''B''], deleted = [py ''A'']\<rparr>\<rparr>"
    by (simp add: scan_pre_push_cmd_def iac_scan_diff_def p)
      (simp add: reconcile_def findings_before_def py_def)
  let ?later = "scan_pre_push_cmd zero_sha findings_before [py ''B'', py ''C''] (py ''9f2c'')"
  let ?r = "\<lparr>entities_with_incidents =
          \<lparr>new = [py ''C''], unchanged = [py ''B''], deleted = [py ''A'']\<rparr>\<rparr>"
  from first_push_all_new [where remote_commit = zero_sha and EMPTY_SHA = zero_sha
      and findings_at = findings_before and current = "[py ''B'', py ''C'']"
      and scan_collection = ?later and r = ?r]
  have "previous_ref zero_sha zero_sha = None \<and>
    create_diff_scan_dict (scan_pre_push_cmd zero_sha findings_before [py ''B'', py ''C''] zero_sha)
     = \<lparr>added_vulns = [py ''B'', py ''C''], persisting_vulns = [], removed_vulns = []\<rparr>"
    by simp
  moreover from first_push_all_new [where remote_commit = "py ''topic~1''" and EMPTY_SHA = zero_sha
      and findings_at = findings_before and current = "[py ''B'', py ''C'']"
      and scan_collection = ?later and r = ?r] t
  have "create_diff_scan_dict
     (scan_pre_push_cmd zero_sha findings_before [py ''B'', py ''C''] (py ''topic~1''))
     = \<lparr>added_vulns = [py ''B'', py ''C''], persisting_vulns = [], removed_vulns = []\<rparr>"
    by simp
  moreover from first_push_all_new [where remote_commit = zero_sha and EMPTY_SHA = zero_sha
      and findings_at = findings_before and current = "[py ''B'', py ''C'']"
      and scan_collection = ?later and r = ?r] r
  have "create_diff_scan_dict ?later
     = \<lparr>added_vulns = [py ''C''], persisting_vulns = [py ''B''], removed_vulns = [py ''A'']\<rparr>"
    by simp
  ultimately show ?thesis using t p by simp
qed

end
